theory Spec2Isabelle
  imports Complex_Main "HOL-Library.Sublist" "HOL-Library.AList" "HOL-Library.Multiset"
    "HOL-Library.Product_Lexorder" "HOL-Library.List_Lexorder" "HOL-Library.Char_ord"
begin

section \<open>Face identity model (face\_system.py)\<close>

text \<open>
  The OpenCV objects the class holds are external: the cascade detector, the CLAHE
  preprocessing, the cropping of an image and the LBPH recogniser.  They are the fields of
  a record of functions that every operation takes as its first argument.  Images are an
  arbitrary type \<open>'img\<close>, the recogniser's internal state an arbitrary type \<open>'rec\<close>.  A
  confidence is a distance, a real number (Python returns a float; NaN is not modelled).
\<close>

type_synonym rect = "nat \<times> nat \<times> nat \<times> nat"

record ('img, 'rec) cv =
  preprocess :: "'img \<Rightarrow> 'img"
  detectMultiScale :: "'img \<Rightarrow> rect list"
  crop :: "'img \<Rightarrow> rect \<Rightarrow> 'img"
  lbph_train :: "'img list \<Rightarrow> int list \<Rightarrow> 'rec"
  lbph_predict :: "'rec \<Rightarrow> 'img \<Rightarrow> int \<times> real"

text \<open>One pickled user file: \<open>{'name', 'samples', 'registered_at'}\<close>.\<close>

record 'img user_data =
  ud_name :: string
  ud_samples :: "'img list"
  ud_registered_at :: string

text \<open>
  The part of the file system the class touches.  \<open>data_dir\<close> is \<open>None\<close> while
  \<open>data/faces\<close> does not exist, otherwise its entries (file name, contents) in the order
  \<open>os.listdir\<close> returns them; that order is whatever the storage gives.  \<open>model_file\<close>
  is \<open>models/face_model.yml\<close>, \<open>users_file\<close> is \<open>models/users.pkl\<close>.
\<close>

record ('img, 'rec) files =
  data_dir :: "(string \<times> 'img user_data) list option"
  model_file :: "'rec option"
  users_file :: "(int \<times> string) list option"

text \<open>
  The object's fields.  \<open>users\<close> is the Python dict from label to name, kept as an
  association list in insertion order; \<open>users.get(label, d)\<close> is \<open>map_of\<close> with a default.
\<close>

record ('img, 'rec) face_system =
  recognizer :: "'rec"
  users :: "(int \<times> string) list"
  trained :: bool
  disk :: "('img, 'rec) files"

definition area :: "rect \<Rightarrow> nat" where
  "area f = (case f of (x, y, w, h) \<Rightarrow> w * h)"

text \<open>Python's \<open>max(faces, key=...)\<close>: the first element whose key is maximal.\<close>

fun max_by :: "('a \<Rightarrow> nat) \<Rightarrow> 'a \<Rightarrow> 'a list \<Rightarrow> 'a" where
  "max_by key best [] = best"
| "max_by key best (x # xs) = max_by key (if key best < key x then x else best) xs"

definition detect_face :: "('img, 'rec) cv \<Rightarrow> 'img \<Rightarrow> ('img \<times> rect) option" where
  "detect_face cv frame =
     (let gray = preprocess cv frame;
          faces = detectMultiScale cv gray
      in case faces of
           [] \<Rightarrow> None
         | f # fs \<Rightarrow> (let r = max_by area f fs in Some (crop cv gray r, r)))"

text \<open>
  \<open>recognize\<close> returns the Python pair (name or \<open>None\<close>, confidence) and, next to it, the
  calls it made to the external detector and recogniser, in order.
\<close>

datatype lib_call = CascadeDetect | LbphPredict

definition dict_get :: "('k \<times> 'v) list \<Rightarrow> 'k \<Rightarrow> 'v \<Rightarrow> 'v" where
  "dict_get d k dflt = (case map_of d k of None \<Rightarrow> dflt | Some v \<Rightarrow> v)"

definition recognize ::
  "('img, 'rec) cv \<Rightarrow> ('img, 'rec) face_system \<Rightarrow> 'img \<Rightarrow> (string option \<times> real) \<times> lib_call list"
where
  "recognize cv s frame =
     (if \<not> trained s then ((None, 0), [])
      else case detect_face cv frame of
             None \<Rightarrow> ((None, 0), [CascadeDetect])
           | Some (face, rect) \<Rightarrow>
               (case lbph_predict cv (recognizer s) face of (label, confidence) \<Rightarrow>
                  if confidence < 70
                  then ((Some (dict_get (users s) label ''Unknown''), confidence),
                        [CascadeDetect, LbphPredict])
                  else ((Some ''Unknown'', confidence), [CascadeDetect, LbphPredict])))"

subsection \<open>Training\<close>

text \<open>
  The loop of \<open>train\<close> over \<open>enumerate(user_files)\<close>: \<open>self.users[idx] = name\<close>, then
  every sample of the file is appended to \<open>faces\<close> with the label \<open>idx\<close>.
\<close>

fun train_loop ::
  "int \<Rightarrow> (string \<times> 'img user_data) list \<Rightarrow> (int \<times> string) list \<times> 'img list \<times> int list
     \<Rightarrow> (int \<times> string) list \<times> 'img list \<times> int list"
where
  "train_loop idx [] acc = acc"
| "train_loop idx ((user_file, user_data) # rest) (us, faces, labels) =
     train_loop (idx + 1) rest
       (AList.update idx (ud_name user_data) us,
        faces @ ud_samples user_data,
        labels @ replicate (length (ud_samples user_data)) idx)"

definition endswith :: "string \<Rightarrow> string \<Rightarrow> bool" where
  "endswith f ext = suffix ext f"

text \<open>The entries of \<open>data/faces\<close>; none while the directory does not exist.\<close>

definition dir_entries :: "('img, 'rec) face_system \<Rightarrow> (string \<times> 'img user_data) list" where
  "dir_entries s = (case data_dir (disk s) of None \<Rightarrow> [] | Some es \<Rightarrow> es)"

text \<open>\<open>[f for f in os.listdir(self.data_dir) if f.endswith('.pkl')]\<close>, with the contents.\<close>

definition pkl_files :: "(string \<times> 'img user_data) list \<Rightarrow> (string \<times> 'img user_data) list" where
  "pkl_files entries = filter (\<lambda>e. endswith (fst e) ''.pkl'') entries"

text \<open>
  \<open>train\<close> returns the updated object and the boolean.  \<open>self.users = {}\<close> is the
  first statement, before any of the early returns.
\<close>

definition train ::
  "('img, 'rec) cv \<Rightarrow> ('img, 'rec) face_system \<Rightarrow> ('img, 'rec) face_system \<times> bool"
where
  "train cv s =
     (let s1 = s\<lparr>users := []\<rparr>
      in case data_dir (disk s1) of
           None \<Rightarrow> (s1, False)
         | Some entries \<Rightarrow>
             (let user_files = pkl_files entries
              in if length user_files = 0 then (s1, False)
                 else (case train_loop 0 user_files (users s1, [], []) of
                         (us, faces, labels) \<Rightarrow>
                           (let s2 = s1\<lparr>users := us\<rparr>
                            in if length faces = 0 then (s2, False)
                               else (let r = lbph_train cv faces labels
                                     in (s2\<lparr>recognizer := r,
                                            disk := (disk s2)\<lparr>model_file := Some r,
                                                              users_file := Some us\<rparr>,
                                            trained := True\<rparr>, True))))))"

subsection \<open>Enrolment\<close>

fun collect_samples :: "('img, 'rec) cv \<Rightarrow> 'img list \<Rightarrow> 'img list" where
  "collect_samples cv [] = []"
| "collect_samples cv (frame # frames) =
     (case detect_face cv frame of
        None \<Rightarrow> collect_samples cv frames
      | Some (face, r) \<Rightarrow> face # collect_samples cv frames)"

text \<open>Python's \<open>str\<close> of a natural number, for the f-strings.\<close>

definition digit_char :: "nat \<Rightarrow> char" where
  "digit_char d = char_of (48 + d)"

fun str_nat :: "nat \<Rightarrow> string" where
  "str_nat n = (if n < 10 then [digit_char n] else str_nat (n div 10) @ [digit_char (n mod 10)])"

declare str_nat.simps [simp del]

text \<open>The Python exceptions that escape from the operations modelled here.\<close>

datatype py_exception = IntegrityError | OverflowError | FileNotFoundError | ValueError

text \<open>
  \<open>open(filepath, 'wb')\<close> followed by \<open>pickle.dump\<close>, on the listing of
  \<open>data/faces\<close>: the contents of an entry of that name are replaced where it stands; a
  new entry appears in the listing at a position that the storage chooses, the argument
  \<open>slot\<close>.
\<close>

definition write_file :: "nat \<Rightarrow> string \<Rightarrow> 'a \<Rightarrow> (string \<times> 'a) list \<Rightarrow> (string \<times> 'a) list" where
  "write_file slot f contents entries =
     (if f \<in> fst ` set entries then AList.update f contents entries
      else take slot entries @ [(f, contents)] @ drop slot entries)"

text \<open>
  \<open>register_user\<close> returns the object and either the exception that escapes or the
  pair (success, message).  The time stamp \<open>datetime.now().isoformat()\<close> is the
  argument \<open>now\<close>.  \<open>open\<close> raises \<open>ValueError\<close> for a name with a null character;
  a name with a path separator names a file below a directory of \<open>data/faces\<close>, which
  is taken to hold no directories, so \<open>open\<close> raises \<open>FileNotFoundError\<close>.  Other
  failures of the storage are not modelled.
\<close>

definition register_user ::
  "('img, 'rec) cv \<Rightarrow> string \<Rightarrow> nat \<Rightarrow> string \<Rightarrow> 'img list \<Rightarrow> ('img, 'rec) face_system
     \<Rightarrow> ('img, 'rec) face_system \<times> (py_exception + bool \<times> string)"
where
  "register_user cv now slot name frames s =
     (let s1 = (if data_dir (disk s) = None
                then s\<lparr>disk := (disk s)\<lparr>data_dir := Some []\<rparr>\<rparr> else s);
          samples = collect_samples cv frames
      in if length samples < 10
         then (s1, Inr (False, ''Only captured '' @ str_nat (length samples)
                                 @ '' samples. Need at least 10.''))
         else if CHR 0x00 \<in> set name then (s1, Inl ValueError)
         else if CHR ''/'' \<in> set name then (s1, Inl FileNotFoundError)
         else (let user_data = \<lparr>ud_name = name, ud_samples = samples, ud_registered_at = now\<rparr>;
                   entries = dir_entries s1;
                   s2 = s1\<lparr>disk := (disk s1)\<lparr>data_dir :=
                               Some (write_file slot (name @ ''.pkl'') user_data entries)\<rparr>\<rparr>
               in case train cv s2 of
                    (s3, success) \<Rightarrow>
                      if success
                      then (s3, Inr (True, ''Registered '' @ name @ '' with ''
                                             @ str_nat (length samples) @ '' samples''))
                      else (s3, Inr (False, ''Training failed''))))"

text \<open>Python's \<open>s.replace(old, new)\<close> for a non-empty \<open>old\<close>: every occurrence, left to right.\<close>

function str_replace :: "string \<Rightarrow> string \<Rightarrow> string \<Rightarrow> string" where
  "str_replace old new [] = []"
| "str_replace old new (c # cs) =
     (if old \<noteq> [] \<and> prefix old (c # cs)
      then new @ str_replace old new (drop (length old) (c # cs))
      else c # str_replace old new cs)"
  by pat_completeness auto
termination
  by (relation "measure (\<lambda>(old, new, s). length s)") (auto simp: neq_Nil_conv)

definition get_all_users :: "('img, 'rec) face_system \<Rightarrow> string list" where
  "get_all_users s =
     (case data_dir (disk s) of
        None \<Rightarrow> []
      | Some entries \<Rightarrow> map (\<lambda>e. str_replace ''.pkl'' [] (fst e)) (pkl_files entries))"

subsection \<open>A small fixture\<close>

text \<open>
  A stand-in for the OpenCV objects, for evaluating the operations on concrete inputs:
  images are numbers, image 0 shows no face, the recogniser remembers its training pairs,
  predicts the label of a face it was trained on (\<open>-1\<close> otherwise) and reports the
  number of the image as the distance.
\<close>

definition cv0 :: "(nat, (nat \<times> int) list) cv" where
  "cv0 = \<lparr>preprocess = (\<lambda>i. i),
          detectMultiScale = (\<lambda>i. if i = 0 then [] else [(0, 0, 60, 60), (5, 5, 80, 80)]),
          crop = (\<lambda>i r. i),
          lbph_train = (\<lambda>faces labels. zip faces labels),
          lbph_predict = (\<lambda>m face. (dict_get m face (- 1), real face))\<rparr>"

definition fresh :: "(nat, (nat \<times> int) list) face_system" where
  "fresh = \<lparr>recognizer = [], users = [], trained = False,
            disk = \<lparr>data_dir = None, model_file = None, users_file = None\<rparr>\<rparr>"

definition alice_trained :: "(nat, (nat \<times> int) list) face_system" where
  "alice_trained =
     \<lparr>recognizer = [(69, 0), (70, 0)], users = [(0, ''alice'')], trained = True,
      disk = \<lparr>data_dir = Some [(''alice.pkl'',
                 \<lparr>ud_name = ''alice'', ud_samples = [69, 70], ud_registered_at = ''t0''\<rparr>)],
              model_file = Some [(69, 0), (70, 0)], users_file = Some [(0, ''alice'')]\<rparr>\<rparr>"

text \<open>The same system after every identity file has been removed from \<open>data/faces\<close>.\<close>

definition alice_removed :: "(nat, (nat \<times> int) list) face_system" where
  "alice_removed = alice_trained\<lparr>disk := (disk alice_trained)\<lparr>data_dir := Some []\<rparr>\<rparr>"

text \<open>The same system when the only identity file left holds no samples.\<close>

definition bob_empty :: "(nat, (nat \<times> int) list) face_system" where
  "bob_empty = alice_trained\<lparr>disk := (disk alice_trained)\<lparr>data_dir :=
     Some [(''bob.pkl'', \<lparr>ud_name = ''bob'', ud_samples = [], ud_registered_at = ''t1''\<rparr>)]\<rparr>\<rparr>"

text \<open>Two directories with the same two identity files, listed in two orders.\<close>

definition ann_file :: "string \<times> nat user_data" where
  "ann_file = (''ann.pkl'', \<lparr>ud_name = ''ann'', ud_samples = [1, 2], ud_registered_at = ''t0''\<rparr>)"

definition bea_file :: "string \<times> nat user_data" where
  "bea_file = (''bea.pkl'', \<lparr>ud_name = ''bea'', ud_samples = [3, 4], ud_registered_at = ''t1''\<rparr>)"

definition listed :: "(string \<times> nat user_data) list \<Rightarrow> (nat, (nat \<times> int) list) face_system" where
  "listed es = fresh\<lparr>disk := (disk fresh)\<lparr>data_dir := Some es\<rparr>\<rparr>"

definition ten_frames :: "nat list" where
  "ten_frames = [1, 2, 3, 4, 5, 6, 7, 8, 9, 10]"

section \<open>Attendance ledger with the SQLite backend (database.py)\<close>

subsection \<open>Time\<close>

text \<open>
  \<open>datetime.now()\<close> is an argument of every operation that reads the clock: the local
  time in microseconds since 1970-01-01 00:00:00.  The columns \<open>punch_time\<close> (text
  \<open>YYYY-MM-DD HH:MM:SS\<close>) and \<open>date\<close> (text \<open>YYYY-MM-DD\<close>) are kept as the number of
  whole seconds and the number of whole days since then.  A reading of the clock and the
  dates the ledger has stored lie in the years 1000 to 9999; there the order of the texts
  is the order of these numbers.  A date computed from an argument can leave that range:
  \<open>now - timedelta(days=days)\<close> raises \<open>OverflowError\<close> outside the years 1 to 9999,
  and a year below 1000 is written without leading zeros, so its text compares
  differently.
\<close>

definition second_of :: "int \<Rightarrow> int" where
  "second_of now = now div 1000000"

definition date_of :: "int \<Rightarrow> int" where
  "date_of now = second_of now div 86400"

definition two_digits :: "nat \<Rightarrow> string" where
  "two_digits n = [digit_char (n div 10), digit_char (n mod 10)]"

text \<open>\<open>strftime('%H:%M:%S')\<close> of a time given in seconds.\<close>

definition strftime_HMS :: "int \<Rightarrow> string" where
  "strftime_HMS t =
     (let s = nat (t mod 86400)
      in two_digits (s div 3600) @ '':'' @ two_digits (s div 60 mod 60) @ '':''
         @ two_digits (s mod 60))"

text \<open>
  The field \<open>seconds\<close> of a \<open>timedelta\<close> of \<open>d\<close> microseconds: the time delta is
  normalised to days, seconds in \<open>0..86399\<close> and microseconds, and \<open>.seconds\<close> reads the
  middle part only.
\<close>

definition timedelta_seconds :: "int \<Rightarrow> int" where
  "timedelta_seconds d = (d div 1000000) mod 86400"

text \<open>Day numbers of 0001-01-01 and 9999-12-31, and the days whose year has four digits.\<close>

definition min_day :: int where
  "min_day = - 719162"

definition max_day :: int where
  "max_day = 2932896"

definition four_digit_year :: "int \<Rightarrow> bool" where
  "four_digit_year d = (- 354285 \<le> d \<and> d \<le> max_day)"

text \<open>
  The calendar of the \<open>datetime\<close> module: its tables of month lengths and its conversion
  of a proleptic Gregorian ordinal (1 is 0001-01-01) to year, month and day.
\<close>

definition days_before_month :: "int \<Rightarrow> int" where
  "days_before_month month =
     [0, 0, 31, 59, 90, 120, 151, 181, 212, 243, 273, 304, 334] ! nat month"

definition days_in_month :: "int \<Rightarrow> int" where
  "days_in_month month = [0, 31, 28, 31, 30, 31, 30, 31, 31, 30, 31, 30, 31] ! nat month"

definition ord2ymd :: "int \<Rightarrow> int \<times> int \<times> int" where
  "ord2ymd ordinal =
     (let n = ordinal - 1;
          n400 = n div 146097; r400 = n mod 146097;
          n100 = r400 div 36524; r100 = r400 mod 36524;
          n4 = r100 div 1461; r4 = r100 mod 1461;
          n1 = r4 div 365; r1 = r4 mod 365;
          year = n400 * 400 + 1 + n100 * 100 + n4 * 4 + n1
      in if n1 = 4 \<or> n100 = 4 then (year - 1, 12, 31)
         else (let leapyear = (n1 = 3 \<and> (n4 \<noteq> 24 \<or> n100 = 3));
                   month = (r1 + 50) div 32;
                   preceding = days_before_month month
                               + (if 2 < month \<and> leapyear then 1 else 0)
               in if r1 < preceding
                  then (year, month - 1,
                        r1 - (preceding - (days_in_month (month - 1)
                                           + (if month - 1 = 2 \<and> leapyear then 1 else 0))) + 1)
                  else (year, month, r1 - preceding + 1)))"

text \<open>
  \<open>strftime('%Y-%m-%d')\<close> of a day number; the year is written without padding, as the
  C library does it.
\<close>

definition strftime_Ymd :: "int \<Rightarrow> string" where
  "strftime_Ymd d =
     (case ord2ymd (d + 719163) of
        (year, month, day) \<Rightarrow>
          str_nat (nat year) @ ''-'' @ two_digits (nat month) @ ''-'' @ two_digits (nat day))"

text \<open>
  \<open>now - timedelta(days=days)\<close>: the constructor of \<open>timedelta\<close> refuses more than
  999999999 days, and the subtraction refuses a result outside the years 1 to 9999.
\<close>

definition minus_days :: "int \<Rightarrow> int \<Rightarrow> py_exception + int" where
  "minus_days now days =
     (if 999999999 < \<bar>days\<bar> then Inl OverflowError
      else if date_of now - days < min_day \<or> max_day < date_of now - days
           then Inl OverflowError
           else Inr (now - days * 86400000000))"

text \<open>
  The SQL comparison \<open>date >= ?\<close> of two date texts, given by their day numbers: for two
  dates with four-digit years it is the comparison of the days, otherwise the texts are
  compared.
\<close>

definition date_ge :: "int \<Rightarrow> int \<Rightarrow> bool" where
  "date_ge d start =
     (if four_digit_year d \<and> four_digit_year start then start \<le> d
      else strftime_Ymd start \<le> strftime_Ymd d)"

subsection \<open>Tables\<close>

record user_row =
  u_id :: nat
  u_name :: string

record attendance_row =
  a_id :: nat
  a_user_id :: nat
  a_punch_type :: string
  a_punch_time :: int
  a_date :: int

text \<open>
  The two tables hold their rows in rowid order.  The two counters are the largest rowid
  ever given out (\<open>AUTOINCREMENT\<close>): a new row gets the counter plus one.
\<close>

record database =
  tbl_users :: "user_row list"
  tbl_attendance :: "attendance_row list"
  seq_users :: nat
  seq_attendance :: nat

text \<open>\<open>cursor.fetchone()\<close>.\<close>

definition fetchone :: "'a list \<Rightarrow> 'a option" where
  "fetchone rows = (case rows of [] \<Rightarrow> None | r # rs \<Rightarrow> Some r)"

text \<open>
  \<open>ORDER BY\<close> is a stable sort, on the key, of the selected rows in the order in which
  the query scans them; a descending column is a negated key.  SQL leaves the order of
  rows with equal keys open, so it is the scan order as SQLite plans the two queries
  below: ascending rowid for the look-up of \<open>punch\<close>, descending rowid for the history.
\<close>

definition order_by :: "('a \<Rightarrow> 'k::linorder) \<Rightarrow> 'a list \<Rightarrow> 'a list" where
  "order_by key rows = sort_key key rows"

text \<open>Python's truth value of an id that may be \<open>None\<close>: \<open>None\<close> and 0 are false.\<close>

definition falsy :: "nat option \<Rightarrow> bool" where
  "falsy user_id = (user_id = None \<or> user_id = Some 0)"

definition add_user :: "string \<Rightarrow> database \<Rightarrow> database \<times> (bool \<times> string)" where
  "add_user name db =
     (if name \<in> set (map u_name (tbl_users db))
      then (db, (False, ''User '' @ name @ '' already exists''))
      else (db\<lparr>tbl_users := tbl_users db @ [\<lparr>u_id = seq_users db + 1, u_name = name\<rparr>],
               seq_users := seq_users db + 1\<rparr>,
            (True, ''User '' @ name @ '' added successfully'')))"

definition get_user_id :: "string \<Rightarrow> database \<Rightarrow> nat option" where
  "get_user_id name db =
     (case fetchone (filter (\<lambda>u. u_name u = name) (tbl_users db)) of
        None \<Rightarrow> None
      | Some result \<Rightarrow> Some (u_id result))"

subsection \<open>Punch\<close>

definition punch_types :: "string list" where
  "punch_types = [''in'', ''out'', ''break'', ''lunch'']"

text \<open>
  The \<open>INSERT\<close> into \<open>attendance\<close>: the \<open>NOT NULL\<close> and \<open>CHECK\<close> constraints raise
  \<open>IntegrityError\<close>, which \<open>punch\<close> does not catch.
\<close>

definition insert_attendance ::
  "nat option \<Rightarrow> string \<Rightarrow> int \<Rightarrow> int \<Rightarrow> database \<Rightarrow> py_exception + database"
where
  "insert_attendance user_id punch_type punch_time date db =
     (case user_id of
        None \<Rightarrow> Inl IntegrityError
      | Some uid \<Rightarrow>
          if punch_type \<notin> set punch_types then Inl IntegrityError
          else Inr (db\<lparr>tbl_attendance := tbl_attendance db @
                         [\<lparr>a_id = seq_attendance db + 1, a_user_id = uid,
                           a_punch_type = punch_type, a_punch_time = punch_time,
                           a_date = date\<rparr>],
                       seq_attendance := seq_attendance db + 1\<rparr>))"

text \<open>
  \<open>SELECT punch_type, punch_time FROM attendance WHERE user_id = ? AND date = ?
  ORDER BY punch_time DESC LIMIT 1\<close>, then \<open>fetchone\<close>.
\<close>

definition last_record :: "nat option \<Rightarrow> int \<Rightarrow> database \<Rightarrow> attendance_row option" where
  "last_record user_id date db =
     fetchone (order_by (\<lambda>r. - a_punch_time r)
       (filter (\<lambda>r. Some (a_user_id r) = user_id \<and> a_date r = date) (tbl_attendance db)))"

text \<open>
  \<open>punch\<close> returns the database and either the exception that escapes or the pair
  (success, message).  A user added on the way stays added whatever happens next: it was
  committed by \<open>add_user\<close>'s own connection.
\<close>

definition punch ::
  "int \<Rightarrow> string \<Rightarrow> string \<Rightarrow> database \<Rightarrow> database \<times> (py_exception + bool \<times> string)"
where
  "punch now name punch_type db =
     (case (if falsy (get_user_id name db)
            then (case add_user name db of
                    (db', (success, msg)) \<Rightarrow>
                      if \<not> success then Inl (db', msg) else Inr (db', get_user_id name db'))
            else Inr (db, get_user_id name db)) of
        Inl (db1, msg) \<Rightarrow> (db1, Inr (False, msg))
      | Inr (db1, user_id) \<Rightarrow>
          (let date = date_of now;
               time = strftime_HMS (second_of now);
               duplicate =
                 (case last_record user_id date db1 of
                    None \<Rightarrow> None
                  | Some r \<Rightarrow>
                      if a_punch_type r = punch_type
                         \<and> timedelta_seconds (now - a_punch_time r * 1000000) < 300
                      then Some (a_punch_time r) else None)
           in case duplicate of
                Some last_time \<Rightarrow>
                  (db1, Inr (False, ''Already punched '' @ punch_type @ '' at ''
                                       @ strftime_HMS last_time))
              | None \<Rightarrow>
                  (case insert_attendance user_id punch_type (second_of now) date db1 of
                     Inl e \<Rightarrow> (db1, Inl e)
                   | Inr db2 \<Rightarrow>
                       (db2, Inr (True, ''Punched '' @ punch_type @ '' successfully at ''
                                          @ time)))))"

subsection \<open>History\<close>

text \<open>One entry of a day's list: \<open>{'type': ..., 'time': ...}\<close>.\<close>

record punch_event =
  ev_type :: string
  ev_time :: string

text \<open>
  \<open>if date not in history: history[date] = []\<close> followed by \<open>history[date].append(v)\<close>,
  on a dict kept as an association list in insertion order.
\<close>

fun dict_append :: "'k \<Rightarrow> 'v \<Rightarrow> ('k \<times> 'v list) list \<Rightarrow> ('k \<times> 'v list) list" where
  "dict_append k v [] = [(k, [v])]"
| "dict_append k v ((k', vs) # kvs) =
     (if k' = k then (k', vs @ [v]) # kvs else (k', vs) # dict_append k v kvs)"

definition event_of :: "attendance_row \<Rightarrow> punch_event" where
  "event_of r = \<lparr>ev_type = a_punch_type r, ev_time = strftime_HMS (a_punch_time r)\<rparr>"

fun history_loop ::
  "attendance_row list \<Rightarrow> (int \<times> punch_event list) list \<Rightarrow> (int \<times> punch_event list) list"
where
  "history_loop [] history = history"
| "history_loop (record # records) history =
     history_loop records (dict_append (a_date record) (event_of record) history)"

text \<open>
  \<open>get_user_history\<close>: the rows of the user with \<open>date >= start_date\<close>,
  \<open>ORDER BY date DESC, punch_time DESC\<close>, grouped by date.  An unknown user gives the
  empty dict before the clock is read; otherwise the result is the exception of the date
  subtraction or the dict in insertion order, its keys the day numbers.
\<close>

definition get_user_history ::
  "int \<Rightarrow> string \<Rightarrow> int \<Rightarrow> database \<Rightarrow> py_exception + (int \<times> punch_event list) list"
where
  "get_user_history now name days db =
     (let user_id = get_user_id name db
      in if falsy user_id then Inr []
         else (case minus_days now days of
                 Inl e \<Rightarrow> Inl e
               | Inr start \<Rightarrow>
                   (let start_date = date_of start;
                        records = order_by (\<lambda>r. (- a_date r, - a_punch_time r))
                          (rev (filter (\<lambda>r. Some (a_user_id r) = user_id
                                             \<and> date_ge (a_date r) start_date)
                                  (tbl_attendance db)))
                    in Inr (history_loop records []))))"

subsection \<open>Deleting a user\<close>

text \<open>
  The context manager \<open>get_connection\<close>: the statements of the \<open>with\<close> body run on the
  connection, then \<open>commit\<close>; when one of these calls raises, \<open>rollback\<close> restores the
  database and the exception is raised again.  A fault \<open>Some (k, e)\<close> makes the \<open>k\<close>-th
  call of the transaction (counting from 0, the commit last) raise with the text \<open>e\<close>;
  \<open>None\<close> is a storage that works.
\<close>

fun run_statements ::
  "nat \<Rightarrow> (nat \<times> string) option \<Rightarrow> (database \<Rightarrow> database) list \<Rightarrow> database
     \<Rightarrow> string + database"
where
  "run_statements k fault [] db =
     (case fault of
        None \<Rightarrow> Inr db
      | Some (j, e) \<Rightarrow> if j = k then Inl e else Inr db)"
| "run_statements k fault (st # sts) db =
     (case fault of
        None \<Rightarrow> run_statements (k + 1) fault sts (st db)
      | Some (j, e) \<Rightarrow> if j = k then Inl e else run_statements (k + 1) fault sts (st db))"

definition get_connection ::
  "(nat \<times> string) option \<Rightarrow> (database \<Rightarrow> database) list \<Rightarrow> database
     \<Rightarrow> database \<times> (string + unit)"
where
  "get_connection fault body db =
     (case run_statements 0 fault body db of
        Inl e \<Rightarrow> (db, Inl e)
      | Inr db' \<Rightarrow> (db', Inr ()))"

definition delete_attendance_of :: "nat option \<Rightarrow> database \<Rightarrow> database" where
  "delete_attendance_of user_id db =
     db\<lparr>tbl_attendance := filter (\<lambda>r. Some (a_user_id r) \<noteq> user_id) (tbl_attendance db)\<rparr>"

definition delete_user_row :: "nat option \<Rightarrow> database \<Rightarrow> database" where
  "delete_user_row user_id db =
     db\<lparr>tbl_users := filter (\<lambda>u. Some (u_id u) \<noteq> user_id) (tbl_users db)\<rparr>"

definition delete_user ::
  "(nat \<times> string) option \<Rightarrow> string \<Rightarrow> database \<Rightarrow> database \<times> (bool \<times> string)"
where
  "delete_user fault name db =
     (let user_id = get_user_id name db
      in if falsy user_id then (db, (False, ''User not found''))
         else (case get_connection fault
                      [delete_attendance_of user_id, delete_user_row user_id] db of
                 (db', Inr u) \<Rightarrow> (db', (True, ''User '' @ name @ '' and all records deleted''))
               | (db', Inl e) \<Rightarrow> (db', (False, ''Error deleting user: '' @ e))))"

subsection \<open>Statistics\<close>

text \<open>
  The three dicts of \<open>get_statistics\<close>, as maps from the key to the count (the order in
  which the dicts enumerate is not modelled).  A key is present when its \<open>GROUP BY\<close>
  group has a row; for \<open>by_user\<close> the \<open>LEFT JOIN\<close> gives every user a group, and
  \<open>COUNT(a.id)\<close> counts the attendance rows joined to the users of that name.
\<close>

record statistics =
  by_type :: "string \<rightharpoonup> nat"
  by_user :: "string \<rightharpoonup> nat"
  daily :: "int \<rightharpoonup> nat"

definition between :: "int \<Rightarrow> int \<Rightarrow> int \<Rightarrow> bool" where
  "between d start_date end_date = (start_date \<le> d \<and> d \<le> end_date)"

definition get_statistics :: "int \<Rightarrow> int option \<Rightarrow> int option \<Rightarrow> database \<Rightarrow> statistics" where
  "get_statistics now start_date end_date db =
     (let s = (case start_date of None \<Rightarrow> date_of (now - 30 * 86400000000) | Some d \<Rightarrow> d);
          e = (case end_date of None \<Rightarrow> date_of now | Some d \<Rightarrow> d);
          in_range = filter (\<lambda>r. between (a_date r) s e) (tbl_attendance db)
      in \<lparr>by_type = (\<lambda>t. let n = length (filter (\<lambda>r. a_punch_type r = t) in_range)
                          in if n = 0 then None else Some n),
          by_user = (\<lambda>nm. if nm \<in> set (map u_name (tbl_users db))
                           then Some (sum_list
                                  (map (\<lambda>u. length (filter (\<lambda>r. a_user_id r = u_id u) in_range))
                                     (filter (\<lambda>u. u_name u = nm) (tbl_users db))))
                           else None),
          daily = (\<lambda>d. let present = remdups (map a_user_id (filter (\<lambda>r. a_date r = d) in_range))
                        in if present = [] then None else Some (length present))\<rparr>)"

text \<open>The invariant that the table constraints and \<open>AUTOINCREMENT\<close> keep.\<close>

definition wf_db :: "database \<Rightarrow> bool" where
  "wf_db db =
     (distinct (map u_name (tbl_users db)) \<and> distinct (map u_id (tbl_users db))
      \<and> list_all (\<lambda>u. 0 < u_id u \<and> u_id u \<le> seq_users db) (tbl_users db))"

definition empty_db :: database where
  "empty_db = \<lparr>tbl_users = [], tbl_attendance = [], seq_users = 0, seq_attendance = 0\<rparr>"

text \<open>A small ledger: two users, three punches on day 20000.\<close>

definition ledger0 :: database where
  "ledger0 =
     \<lparr>tbl_users = [\<lparr>u_id = 1, u_name = ''alice''\<rparr>, \<lparr>u_id = 2, u_name = ''bob''\<rparr>],
      tbl_attendance =
        [\<lparr>a_id = 1, a_user_id = 1, a_punch_type = ''in'', a_punch_time = 1728032400, a_date = 20000\<rparr>,
         \<lparr>a_id = 2, a_user_id = 2, a_punch_type = ''in'', a_punch_time = 1728032460, a_date = 20000\<rparr>,
         \<lparr>a_id = 3, a_user_id = 1, a_punch_type = ''out'', a_punch_time = 1728061200, a_date = 20000\<rparr>],
      seq_users = 2, seq_attendance = 3\<rparr>"

text \<open>The row that a successful \<open>punch\<close> appends.\<close>

definition new_row :: "database \<Rightarrow> nat \<Rightarrow> string \<Rightarrow> int \<Rightarrow> attendance_row" where
  "new_row db uid ty now =
     \<lparr>a_id = seq_attendance db + 1, a_user_id = uid, a_punch_type = ty,
      a_punch_time = second_of now, a_date = date_of now\<rparr>"

text \<open>Clock readings on day 20000: 18:00:00 and 23:58:00.\<close>

definition t_1800 :: int where
  "t_1800 = 1728064800 * 1000000"

text \<open>The small ledger after alice has punched in at 18:00:00.\<close>

definition ledger1 :: database where
  "ledger1 = ledger0\<lparr>tbl_attendance := tbl_attendance ledger0 @
      [\<lparr>a_id = 4, a_user_id = 1, a_punch_type = ''in'', a_punch_time = 1728064800, a_date = 20000\<rparr>],
      seq_attendance := 4\<rparr>"


definition t_2358 :: int where
  "t_2358 = (20000 * 86400 + 23 * 3600 + 58 * 60) * 1000000"

section \<open>Attendance ledger with the JSON file (attendance.py)\<close>

type_synonym records = "(string \<times> (int \<times> punch_event list) list) list"

text \<open>
  \<open>self.records\<close>: a dict from name to a dict from date to the list of that date's
  events, both kept as association lists in insertion order; a date is the day number of
  its text \<open>YYYY-MM-DD\<close>.  \<open>punch\<close> of this class, here \<open>punch_json\<close>, compares
  the punch type with the last event of the day and looks at no time.
\<close>

definition punch_json :: "int \<Rightarrow> string \<Rightarrow> string \<Rightarrow> records \<Rightarrow> records \<times> (bool \<times> string)" where
  "punch_json now name punch_type records =
     (let date = date_of now;
          time = strftime_HMS (second_of now);
          records1 = (if name \<notin> set (map fst records)
                      then AList.update name [] records else records);
          by_date = dict_get records1 name [];
          by_date1 = (if date \<notin> set (map fst by_date)
                      then AList.update date [] by_date else by_date);
          records2 = AList.update name by_date1 records1;
          today = dict_get by_date1 date []
      in if length today > 0 \<and> ev_type (last today) = punch_type
         then (records2, (False, ''Already punched '' @ punch_type @ '' at ''
                                   @ ev_time (last today)))
         else (AList.update name
                 (AList.update date (today @ [\<lparr>ev_type = punch_type, ev_time = time\<rparr>]) by_date1)
                 records2,
               (True, ''Punched '' @ punch_type @ '' successfully at '' @ time)))"

text \<open>Python's slice \<open>xs[:n]\<close>; a negative \<open>n\<close> counts from the end.\<close>

definition slice_to :: "int \<Rightarrow> 'a list \<Rightarrow> 'a list" where
  "slice_to n xs = (if 0 \<le> n then take (nat n) xs else take (nat (int (length xs) + n)) xs)"

text \<open>
  \<open>get_user_history\<close> of this class, here \<open>get_user_history_json\<close>:
  \<open>sorted(keys, reverse=True)[:days]\<close>, then the dict comprehension.
\<close>

definition get_user_history_json ::
  "string \<Rightarrow> int \<Rightarrow> records \<Rightarrow> (int \<times> punch_event list) list"
where
  "get_user_history_json name days records =
     (case map_of records name of
        None \<Rightarrow> []
      | Some by_date \<Rightarrow>
          (let all_dates = rev (sort (map fst by_date))
           in map (\<lambda>date. (date, dict_get by_date date [])) (slice_to days all_dates)))"

text \<open>No recorded date has an empty list of events; \<open>punch_json\<close> keeps this.\<close>

definition no_empty_days :: "records \<Rightarrow> bool" where
  "no_empty_days records =
     list_all (\<lambda>(name, by_date). list_all (\<lambda>(date, evs). evs \<noteq> []) by_date) records"

text \<open>Every stored date lies in the years 1000 to 9999.\<close>

definition four_digit_dates :: "database \<Rightarrow> bool" where
  "four_digit_dates db = list_all (\<lambda>r. four_digit_year (a_date r)) (tbl_attendance db)"

text \<open>The attendance rows of a user on or after a date.\<close>

definition rows_since :: "nat \<Rightarrow> int \<Rightarrow> database \<Rightarrow> attendance_row list" where
  "rows_since uid start_date db =
     filter (\<lambda>r. a_user_id r = uid \<and> start_date \<le> a_date r) (tbl_attendance db)"

text \<open>A small record sheet: alice with two events on day 20000 and one on day 20001.\<close>

definition sheet0 :: records where
  "sheet0 =
     [(''alice'',
       [(20000, [\<lparr>ev_type = ''in'', ev_time = ''09:00:00''\<rparr>,
                 \<lparr>ev_type = ''out'', ev_time = ''17:00:00''\<rparr>]),
        (20001, [\<lparr>ev_type = ''in'', ev_time = ''08:59:00''\<rparr>])])]"

section \<open>Recognition\<close>

text \<open>
  C3.  In a trained system, for a frame in which a face is detected and for which the
  recogniser predicts \<open>(label, confidence)\<close>: when the confidence is strictly below 70 the
  result is the name that \<open>users\<close> maps the label to (\<open>users.get(label, "Unknown")\<close>, so
  \<open>nm\<close> whenever the label is mapped to \<open>nm\<close>) with the confidence; when the confidence
  is 70 or more the result is "Unknown" with the raw confidence.
\<close>

theorem recognize_threshold:
  assumes "trained s"
    and "detect_face cv frame = Some (face, r)"
    and "lbph_predict cv (recognizer s) face = (label, confidence)"
  shows "(confidence < 70 \<longrightarrow>
            fst (recognize cv s frame) = (Some (dict_get (users s) label ''Unknown''), confidence)
            \<and> (\<forall>nm. map_of (users s) label = Some nm \<longrightarrow>
                  fst (recognize cv s frame) = (Some nm, confidence)))
       \<and> (70 \<le> confidence \<longrightarrow> fst (recognize cv s frame) = (Some ''Unknown'', confidence))"
  using assms by (simp add: recognize_def dict_get_def)

theorem recognize_threshold_witness:
  "trained alice_trained
   \<and> detect_face cv0 69 = Some (69, (5, 5, 80, 80))
   \<and> lbph_predict cv0 (recognizer alice_trained) 69 = (0, 69)
   \<and> fst (recognize cv0 alice_trained 69) = (Some ''alice'', 69)
   \<and> detect_face cv0 70 = Some (70, (5, 5, 80, 80))
   \<and> lbph_predict cv0 (recognizer alice_trained) 70 = (0, 70)
   \<and> fst (recognize cv0 alice_trained 70) = (Some ''Unknown'', 70)"
proof -
  have t: "trained alice_trained"
    by (simp add: alice_trained_def)
  have d69: "detect_face cv0 69 = Some (69, (5, 5, 80, 80))"
    by (simp add: detect_face_def cv0_def area_def)
  have d70: "detect_face cv0 70 = Some (70, (5, 5, 80, 80))"
    by (simp add: detect_face_def cv0_def area_def)
  have p69: "lbph_predict cv0 (recognizer alice_trained) 69 = (0, 69)"
    by (simp add: cv0_def alice_trained_def dict_get_def)
  have p70: "lbph_predict cv0 (recognizer alice_trained) 70 = (0, 70)"
    by (simp add: cv0_def alice_trained_def dict_get_def)
  have m: "map_of (users alice_trained) 0 = Some ''alice''"
    by (simp add: alice_trained_def)
  from recognize_threshold [OF t d69 p69] m
  have r69: "fst (recognize cv0 alice_trained 69) = (Some ''alice'', 69)"
    by (simp add: dict_get_def)
  from recognize_threshold [OF t d70 p70]
  have r70: "fst (recognize cv0 alice_trained 70) = (Some ''Unknown'', 70)"
    by simp
  from t d69 p69 r69 d70 p70 r70 show ?thesis
    by blast
qed

text \<open>
  C5.  For every frame: when the system is untrained, \<open>recognize\<close> returns (no name, 0)
  and has made no call at all to the external libraries, so none to the recogniser; when
  no face is detected in the frame it returns (no name, 0) too, again without a call to
  the recogniser.
\<close>

theorem recognize_no_identity:
  "(\<not> trained s \<longrightarrow> recognize cv s frame = ((None, 0), []))
   \<and> (detect_face cv frame = None \<longrightarrow>
        fst (recognize cv s frame) = (None, 0)
        \<and> LbphPredict \<notin> set (snd (recognize cv s frame)))"
  by (simp add: recognize_def)

theorem recognize_no_identity_witness:
  "\<not> trained fresh \<and> recognize cv0 fresh 69 = ((None, 0), [])
   \<and> detect_face cv0 0 = None
   \<and> fst (recognize cv0 alice_trained 0) = (None, 0)
   \<and> LbphPredict \<notin> set (snd (recognize cv0 alice_trained 0))"
proof -
  have u: "\<not> trained fresh"
    by (simp add: fresh_def)
  have d: "detect_face cv0 0 = None"
    by (simp add: detect_face_def cv0_def)
  from recognize_no_identity [of fresh cv0 69] u
  have a: "recognize cv0 fresh 69 = ((None, 0), [])"
    by blast
  from recognize_no_identity [of alice_trained cv0 0] d
  have b: "fst (recognize cv0 alice_trained 0) = (None, 0)
           \<and> LbphPredict \<notin> set (snd (recognize cv0 alice_trained 0))"
    by blast
  from u a d b show ?thesis
    by blast
qed

section \<open>Enrolment and training\<close>

lemma collect_samples_length:
  "length (collect_samples cv frames) = length (filter (\<lambda>f. detect_face cv f \<noteq> None) frames)"
  by (induction frames) (auto split: option.splits)

text \<open>
  C4.  When fewer than 10 of the frames show a detectable face, \<open>register_user\<close> returns
  \<open>False\<close> with the message "Only captured n samples. Need at least 10." (n the number of
  such frames), whatever the name, and nothing is persisted: the entries of \<open>data/faces\<close>, the list of
  enrolled users, the model files and the object's model fields are as before (the only
  effect is that the directory \<open>data/faces\<close> now exists).
\<close>

theorem register_user_insufficient:
  assumes "length (filter (\<lambda>f. detect_face cv f \<noteq> None) frames) < 10"
  shows "snd (register_user cv now slot name frames s) =
           Inr (False, ''Only captured ''
                         @ str_nat (length (filter (\<lambda>f. detect_face cv f \<noteq> None) frames))
                         @ '' samples. Need at least 10.'')
       \<and> dir_entries (fst (register_user cv now slot name frames s)) = dir_entries s
       \<and> get_all_users (fst (register_user cv now slot name frames s)) = get_all_users s
       \<and> model_file (disk (fst (register_user cv now slot name frames s))) = model_file (disk s)
       \<and> users_file (disk (fst (register_user cv now slot name frames s))) = users_file (disk s)
       \<and> recognizer (fst (register_user cv now slot name frames s)) = recognizer s
       \<and> users (fst (register_user cv now slot name frames s)) = users s
       \<and> trained (fst (register_user cv now slot name frames s)) = trained s"
proof -
  let ?s1 = "if data_dir (disk s) = None then s\<lparr>disk := (disk s)\<lparr>data_dir := Some []\<rparr>\<rparr> else s"
  have lt: "length (collect_samples cv frames) < 10"
    using assms by (simp only: collect_samples_length)
  have "register_user cv now slot name frames s =
          (?s1, Inr (False, ''Only captured '' @ str_nat (length (collect_samples cv frames))
                              @ '' samples. Need at least 10.''))"
    using lt by (simp add: register_user_def Let_def)
  then have r: "register_user cv now slot name frames s =
          (?s1, Inr (False, ''Only captured ''
                       @ str_nat (length (filter (\<lambda>f. detect_face cv f \<noteq> None) frames))
                       @ '' samples. Need at least 10.''))"
    by (simp only: collect_samples_length)
  have e: "dir_entries ?s1 = dir_entries s"
    by (simp add: dir_entries_def)
  have g: "get_all_users ?s1 = get_all_users s"
    by (simp add: get_all_users_def pkl_files_def)
  have m: "model_file (disk ?s1) = model_file (disk s)"
         "users_file (disk ?s1) = users_file (disk s)"
         "recognizer ?s1 = recognizer s" "users ?s1 = users s" "trained ?s1 = trained s"
    by simp_all
  show ?thesis
    unfolding r fst_conv snd_conv using e g m by blast
qed

theorem register_user_insufficient_witness:
  "length (filter (\<lambda>f. detect_face cv0 f \<noteq> None) [1, 2, 0, 3]) < 10
   \<and> snd (register_user cv0 ''t1'' 0 ''ab'' [1, 2, 0, 3] fresh) =
       Inr (False, ''Only captured 3 samples. Need at least 10.'')
   \<and> dir_entries (fst (register_user cv0 ''t1'' 0 ''ab'' [1, 2, 0, 3] fresh)) = []"
proof -
  have d: "\<And>n. detect_face cv0 n = None \<longleftrightarrow> n = 0"
    by (simp add: detect_face_def cv0_def)
  have n: "length (filter (\<lambda>f. detect_face cv0 f \<noteq> None) [1, 2, 0, 3]) = 3"
    by (simp add: d del: not_None_eq)
  have h: "length (filter (\<lambda>f. detect_face cv0 f \<noteq> None) [1, 2, 0, 3]) < 10"
    by (simp only: n)
  have three: "str_nat 3 = ''3''"
    by code_simp
  have e: "dir_entries fresh = []"
    by (simp add: dir_entries_def fresh_def)
  from register_user_insufficient [OF h, of "''t1''" 0 "''ab''" fresh] h
  show ?thesis
    by (simp only: n three e) simp
qed

text \<open>
  C2 (what the code does).  A trained system whose identity files have all been removed:
  \<open>train\<close> returns \<open>False\<close> and leaves the recogniser and the \<open>trained\<close> flag as they
  were, but the label-to-name map is now empty.  Likewise when the only identity file holds
  no samples: \<open>train\<close> returns \<open>False\<close>, the recogniser is still the one trained on
  alice, and the label-to-name map now maps label 0 to bob.
\<close>

theorem train_failure_changes_users:
  "users alice_removed = [(0, ''alice'')]
   \<and> snd (train cv0 alice_removed) = False
   \<and> users (fst (train cv0 alice_removed)) = []
   \<and> recognizer (fst (train cv0 alice_removed)) = recognizer alice_removed
   \<and> trained (fst (train cv0 alice_removed))
   \<and> users bob_empty = [(0, ''alice'')]
   \<and> snd (train cv0 bob_empty) = False
   \<and> users (fst (train cv0 bob_empty)) = [(0, ''bob'')]
   \<and> recognizer (fst (train cv0 bob_empty)) = recognizer bob_empty
   \<and> trained (fst (train cv0 bob_empty))"
  by (simp add: train_def alice_removed_def bob_empty_def alice_trained_def pkl_files_def
      endswith_def suffix_to_prefix)

text \<open>What a failing \<open>train\<close> does leave alone: the recogniser, the flag and the files.\<close>

lemma train_failure_keeps_classifier:
  assumes "snd (train cv s) = False"
  shows "fst (train cv s) = s\<lparr>users := users (fst (train cv s))\<rparr>"
  using assms
  by (auto simp: train_def Let_def split: option.splits if_splits prod.splits)

lemma update_fresh: "k \<notin> fst ` set al \<Longrightarrow> AList.update k v al = al @ [(k, v)]"
  by (induction al) auto

lemma train_loop_users:
  "\<forall>k \<in> fst ` set us. k < idx \<Longrightarrow>
   fst (train_loop idx fs (us, F, L)) =
     us @ zip (map (\<lambda>i. idx + int i) [0..<length fs]) (map (\<lambda>e. ud_name (snd e)) fs)"
proof (induction fs arbitrary: idx us F L)
  case Nil
  then show ?case by simp
next
  case (Cons e fs)
  obtain f d where e: "e = (f, d)" by (cases e)
  have fresh: "idx \<notin> fst ` set us" using Cons.prems by auto
  have bound: "\<forall>k \<in> fst ` set (us @ [(idx, ud_name d)]). k < idx + 1"
    using Cons.prems by auto
  have shift: "map (\<lambda>i. idx + int i) [0..<Suc (length fs)]
        = idx # map (\<lambda>i. idx + 1 + int i) [0..<length fs]"
    by (simp add: upt_conv_Cons map_Suc_upt [symmetric] del: upt_Suc)
  show ?case
    using Cons.IH [OF bound] fresh
    by (simp add: e update_fresh shift del: upt_Suc)
qed

text \<open>
  C6 as stated fails: the same two identity files, listed in two different orders, give
  two different label-to-name maps.
\<close>

theorem train_listing_order_counterexample:
  "set [ann_file, bea_file] = set [bea_file, ann_file]
   \<and> snd (train cv0 (listed [ann_file, bea_file]))
   \<and> snd (train cv0 (listed [bea_file, ann_file]))
   \<and> users (fst (train cv0 (listed [ann_file, bea_file]))) = [(0, ''ann''), (1, ''bea'')]
   \<and> users (fst (train cv0 (listed [bea_file, ann_file]))) = [(0, ''bea''), (1, ''ann'')]
   \<and> map_of (users (fst (train cv0 (listed [ann_file, bea_file])))) 0
       \<noteq> map_of (users (fst (train cv0 (listed [bea_file, ann_file])))) 0"
  by (simp add: train_def listed_def fresh_def ann_file_def bea_file_def pkl_files_def
      endswith_def suffix_to_prefix cv0_def insert_commute Let_def)

text \<open>
  C6 as amended.  \<open>train\<close> numbers the identity files in the order in which the listing
  of \<open>data/faces\<close> returns them, without sorting: after \<open>train\<close> the label-to-name map
  is exactly label \<open>i\<close> to the name stored in the \<open>i\<close>-th listed \<open>.pkl\<close> file, whatever the
  map, the recogniser and the flag were before.  So two runs give the same map whenever the
  listing gives the same files in the same order.
\<close>

theorem train_labels_follow_listing:
  "users (fst (train cv s)) =
     zip (map int [0..<length (pkl_files (dir_entries s))])
         (map (\<lambda>e. ud_name (snd e)) (pkl_files (dir_entries s)))"
proof (cases "data_dir (disk s)")
  case None
  then show ?thesis
    by (simp add: train_def dir_entries_def pkl_files_def)
next
  case (Some entries)
  have loop: "fst (train_loop 0 (pkl_files entries) ([], [], [])) =
      zip (map int [0..<length (pkl_files entries)]) (map (\<lambda>e. ud_name (snd e)) (pkl_files entries))"
    using train_loop_users [of "[]" 0 "pkl_files entries" "[]" "[]"] by simp
  show ?thesis
  proof (cases "pkl_files entries = []")
    case True
    with Some show ?thesis
      by (simp add: train_def dir_entries_def)
  next
    case False
    with Some loop show ?thesis
      by (auto simp: train_def dir_entries_def Let_def split: prod.splits)
  qed
qed

lemma train_loop_faces:
  "fst (snd (train_loop idx fs (us, F, L))) = F @ concat (map (\<lambda>e. ud_samples (snd e)) fs)"
  by (induction fs arbitrary: idx us F L) auto

lemma train_success:
  assumes "e \<in> set (pkl_files (dir_entries s))" and "ud_samples (snd e) \<noteq> []"
  shows "snd (train cv s) \<and> dir_entries (fst (train cv s)) = dir_entries s"
proof -
  obtain entries where d: "data_dir (disk s) = Some entries"
    using assms(1) by (cases "data_dir (disk s)") (auto simp: dir_entries_def pkl_files_def)
  have e: "e \<in> set (pkl_files entries)"
    using assms(1) d by (simp add: dir_entries_def)
  then have ne: "pkl_files entries \<noteq> []" by auto
  obtain us faces labels where l: "train_loop 0 (pkl_files entries) ([], [], []) = (us, faces, labels)"
    by (cases "train_loop 0 (pkl_files entries) ([], [], [])") auto
  have "faces = concat (map (\<lambda>e. ud_samples (snd e)) (pkl_files entries))"
    using train_loop_faces [of 0 "pkl_files entries" "[]" "[]" "[]"] l by simp
  with e assms(2) have "faces \<noteq> []" by auto
  with d ne l show ?thesis
    by (simp add: train_def Let_def dir_entries_def)
qed

lemma update_mem: "(k, v) \<in> set (AList.update k v al)"
  by (induction al) auto

lemma write_file_mem: "(f, c) \<in> set (write_file slot f c entries)"
  by (simp add: write_file_def update_mem)

lemma endswith_pkl: "endswith (name @ ''.pkl'') ''.pkl''"
  by (simp add: endswith_def suffix_def)

lemma register_user_success:
  assumes "10 \<le> length (filter (\<lambda>f. detect_face cv f \<noteq> None) frames)"
    and "CHR 0x00 \<notin> set name" and "CHR ''/'' \<notin> set name"
  shows "snd (register_user cv now slot name frames s) =
           Inr (True, ''Registered '' @ name @ '' with ''
                        @ str_nat (length (collect_samples cv frames)) @ '' samples'')
       \<and> dir_entries (fst (register_user cv now slot name frames s)) =
           write_file slot (name @ ''.pkl'')
             \<lparr>ud_name = name, ud_samples = collect_samples cv frames, ud_registered_at = now\<rparr>
             (dir_entries s)"
proof -
  define s1 where
    "s1 = (if data_dir (disk s) = None then s\<lparr>disk := (disk s)\<lparr>data_dir := Some []\<rparr>\<rparr> else s)"
  define ud where
    "ud = \<lparr>ud_name = name, ud_samples = collect_samples cv frames, ud_registered_at = now\<rparr>"
  define s2 where
    "s2 = s1\<lparr>disk := (disk s1)\<lparr>data_dir :=
            Some (write_file slot (name @ ''.pkl'') ud (dir_entries s1))\<rparr>\<rparr>"
  have ge: "\<not> length (collect_samples cv frames) < 10"
    using assms(1) by (simp only: collect_samples_length not_less)
  have nul: "(CHR 0x00 \<in> set name) = False" and sep: "(CHR ''/'' \<in> set name) = False"
    using assms(2,3) by simp_all
  have e1: "dir_entries s1 = dir_entries s"
    by (simp add: dir_entries_def s1_def)
  have e2: "dir_entries s2 = write_file slot (name @ ''.pkl'') ud (dir_entries s)"
    by (simp add: dir_entries_def s2_def e1 [unfolded dir_entries_def])
  have "(name @ ''.pkl'', ud) \<in> set (pkl_files (dir_entries s2))"
    unfolding e2 by (simp add: pkl_files_def write_file_mem endswith_pkl)
  moreover have "ud_samples (snd (name @ ''.pkl'', ud)) \<noteq> []"
    using ge by (auto simp: ud_def)
  ultimately have t: "snd (train cv s2) \<and> dir_entries (fst (train cv s2)) = dir_entries s2"
    by (rule train_success)
  then obtain s3 where s3: "train cv s2 = (s3, True)" "dir_entries s3 = dir_entries s2"
    by (cases "train cv s2") auto
  have "register_user cv now slot name frames s =
      (case train cv s2 of (s3, success) \<Rightarrow>
         if success
         then (s3, Inr (True, ''Registered '' @ name @ '' with ''
                     @ str_nat (length (collect_samples cv frames)) @ '' samples''))
         else (s3, Inr (False, ''Training failed'')))"
    by (simp only: register_user_def Let_def ge nul sep if_False s1_def s2_def ud_def)
  then have "register_user cv now slot name frames s =
      (s3, Inr (True, ''Registered '' @ name @ '' with ''
                     @ str_nat (length (collect_samples cv frames)) @ '' samples''))"
    by (simp add: s3)
  with s3 e2 show ?thesis by (simp add: ud_def)
qed

text \<open>
  Enrolling again under a name whose file \<open><name>.pkl\<close> is already listed succeeds,
  keeps the listing as it was and replaces the contents of that file.
\<close>

lemma register_user_existing_keeps_files:
  assumes "10 \<le> length (filter (\<lambda>f. detect_face cv f \<noteq> None) frames)"
    and "CHR 0x00 \<notin> set name" and "CHR ''/'' \<notin> set name"
    and "name @ ''.pkl'' \<in> fst ` set (dir_entries s)"
  shows "snd (register_user cv now slot name frames s) =
           Inr (True, ''Registered '' @ name @ '' with ''
                        @ str_nat (length (collect_samples cv frames)) @ '' samples'')
       \<and> map fst (dir_entries (fst (register_user cv now slot name frames s))) = map fst (dir_entries s)
       \<and> map_of (dir_entries (fst (register_user cv now slot name frames s))) (name @ ''.pkl'') =
           Some \<lparr>ud_name = name, ud_samples = collect_samples cv frames, ud_registered_at = now\<rparr>"
  using register_user_success [OF assms(1,2,3), of now slot s] assms(4)
  by (simp add: write_file_def update_keys update_conv')

text \<open>A name with a path separator: with enough samples, \<open>open\<close> raises and no file is written.\<close>

lemma register_user_path_separator:
  assumes "10 \<le> length (filter (\<lambda>f. detect_face cv f \<noteq> None) frames)"
    and "CHR 0x00 \<notin> set name" and "CHR ''/'' \<in> set name"
  shows "snd (register_user cv now slot name frames s) = Inl FileNotFoundError
       \<and> dir_entries (fst (register_user cv now slot name frames s)) = dir_entries s"
proof -
  have ge: "\<not> length (collect_samples cv frames) < 10"
    using assms(1) by (simp only: collect_samples_length not_less)
  show ?thesis
    using ge assms(2,3) by (simp add: register_user_def Let_def dir_entries_def)
qed

lemma detect_face_cv0: "detect_face cv0 n = None \<longleftrightarrow> n = 0"
  by (simp add: detect_face_def cv0_def)

lemma ten_frames_show_faces: "10 \<le> length (filter (\<lambda>f. detect_face cv0 f \<noteq> None) ten_frames)"
  by (simp add: ten_frames_def detect_face_cv0 del: not_None_eq)

lemma ten_samples: "str_nat (length (collect_samples cv0 ten_frames)) = ''10''"
proof -
  have "length (collect_samples cv0 ten_frames) = 10"
    unfolding collect_samples_length
    by (simp add: ten_frames_def detect_face_cv0 del: not_None_eq)
  moreover have "str_nat 10 = ''10''"
    by code_simp
  ultimately show ?thesis by simp
qed

text \<open>
  C10 (what the code does).  Enrolling "ab" and then "a.pklb", each with ten frames that
  show a face, succeeds twice and stores the two files \<open>ab.pkl\<close> and \<open>a.pklb.pkl\<close>,
  wherever the storage lists them; \<open>get_all_users\<close> removes every occurrence of ".pkl"
  from a file name, so it then lists the name "ab" twice.
\<close>

theorem get_all_users_lists_name_twice:
  "snd (register_user cv0 ''t1'' slot1 ''ab'' ten_frames fresh) =
     Inr (True, ''Registered ab with 10 samples'')
   \<and> snd (register_user cv0 ''t2'' slot2 ''a.pklb'' ten_frames
            (fst (register_user cv0 ''t1'' slot1 ''ab'' ten_frames fresh))) =
       Inr (True, ''Registered a.pklb with 10 samples'')
   \<and> set (map fst (dir_entries (fst (register_user cv0 ''t2'' slot2 ''a.pklb'' ten_frames
                 (fst (register_user cv0 ''t1'' slot1 ''ab'' ten_frames fresh))))))
       = {''ab.pkl'', ''a.pklb.pkl''}
   \<and> length (dir_entries (fst (register_user cv0 ''t2'' slot2 ''a.pklb'' ten_frames
                 (fst (register_user cv0 ''t1'' slot1 ''ab'' ten_frames fresh))))) = 2
   \<and> get_all_users (fst (register_user cv0 ''t2'' slot2 ''a.pklb'' ten_frames
                 (fst (register_user cv0 ''t1'' slot1 ''ab'' ten_frames fresh))))
       = [''ab'', ''ab'']"
proof -
  define s1 where "s1 = fst (register_user cv0 ''t1'' slot1 ''ab'' ten_frames fresh)"
  define s2 where "s2 = fst (register_user cv0 ''t2'' slot2 ''a.pklb'' ten_frames s1)"
  define c1 :: "nat user_data" where
    "c1 = \<lparr>ud_name = ''ab'', ud_samples = collect_samples cv0 ten_frames, ud_registered_at = ''t1''\<rparr>"
  define c2 :: "nat user_data" where
    "c2 = \<lparr>ud_name = ''a.pklb'', ud_samples = collect_samples cv0 ten_frames,
            ud_registered_at = ''t2''\<rparr>"
  have ok1: "CHR 0x00 \<notin> set ''ab''" "CHR ''/'' \<notin> set ''ab''"
    and ok2: "CHR 0x00 \<notin> set ''a.pklb''" "CHR ''/'' \<notin> set ''a.pklb''"
    by simp_all
  note r1 = register_user_success [OF ten_frames_show_faces ok1, of "''t1''" slot1 fresh,
      folded s1_def c1_def, unfolded ten_samples]
  note r2 = register_user_success [OF ten_frames_show_faces ok2, of "''t2''" slot2 s1,
      folded s2_def c2_def, unfolded ten_samples]
  have a: "snd (register_user cv0 ''t1'' slot1 ''ab'' ten_frames fresh) =
     Inr (True, ''Registered ab with 10 samples'')"
    using conjunct1 [OF r1] by simp
  have b: "snd (register_user cv0 ''t2'' slot2 ''a.pklb'' ten_frames s1) =
       Inr (True, ''Registered a.pklb with 10 samples'')"
    using conjunct1 [OF r2] by simp
  have "dir_entries fresh = []"
    by (simp add: dir_entries_def fresh_def)
  with conjunct2 [OF r1] have e1: "dir_entries s1 = [(''ab.pkl'', c1)]"
    by (simp add: write_file_def)
  have new: "''a.pklb.pkl'' \<notin> fst ` set [(''ab.pkl'', c1)]"
    by simp
  have e2: "dir_entries s2 =
      (if slot2 = 0 then [(''a.pklb.pkl'', c2), (''ab.pkl'', c1)]
       else [(''ab.pkl'', c1), (''a.pklb.pkl'', c2)])"
    unfolding conjunct2 [OF r2] e1 write_file_def
    by (cases slot2) (simp_all only: new if_False, simp_all)
  have p: "pkl_files (dir_entries s2) = dir_entries s2"
    unfolding e2 by (simp add: pkl_files_def endswith_def suffix_to_prefix)
  have d: "data_dir (disk s2) = Some (dir_entries s2)"
    using e2 by (cases "data_dir (disk s2)") (auto simp: dir_entries_def split: if_splits)
  have n1: "str_replace ''.pkl'' [] ''ab.pkl'' = ''ab''"
    and n2: "str_replace ''.pkl'' [] ''a.pklb.pkl'' = ''ab''"
    by simp_all
  have u: "get_all_users s2 = [''ab'', ''ab'']"
    unfolding get_all_users_def d option.case p
    unfolding e2 by (simp add: n1 n2)
  have k: "set (map fst (dir_entries s2)) = {''ab.pkl'', ''a.pklb.pkl''}"
    unfolding e2 by auto
  have l: "length (dir_entries s2) = 2"
    unfolding e2 by simp
  from a b k l u show ?thesis
    unfolding s2_def s1_def by blast
qed

section \<open>Deleting a user\<close>

lemma get_connection_two:
  "get_connection fault [f, g] db =
     (case fault of
        None \<Rightarrow> (g (f db), Inr ())
      | Some (k, e) \<Rightarrow> if k \<le> 2 then (db, Inl e) else (g (f db), Inr ()))"
  by (auto simp: get_connection_def split: option.splits)

lemma filter_Cons_mem: "filter P xs = y # ys \<Longrightarrow> y \<in> set xs \<and> P y"
proof -
  assume "filter P xs = y # ys"
  then have "y \<in> set (filter P xs)" by simp
  then show ?thesis by simp
qed

lemma get_user_id_None: "get_user_id name db = None \<longleftrightarrow> name \<notin> set (map u_name (tbl_users db))"
  by (auto simp: get_user_id_def fetchone_def filter_empty_conv split: list.splits
      dest: filter_Cons_mem)

lemma get_user_id_Some:
  assumes "get_user_id name db = Some uid"
  shows "\<exists>u \<in> set (tbl_users db). u_name u = name \<and> u_id u = uid"
proof -
  from assms obtain u us where f: "filter (\<lambda>u. u_name u = name) (tbl_users db) = u # us" and "u_id u = uid"
    by (auto simp: get_user_id_def fetchone_def split: list.splits)
  moreover from f have "u \<in> set (tbl_users db) \<and> u_name u = name"
    by (rule filter_Cons_mem)
  ultimately show ?thesis by auto
qed

lemma wf_db_user_unique:
  assumes "wf_db db" and "u \<in> set (tbl_users db)" and "v \<in> set (tbl_users db)"
    and "u_name u = u_name v"
  shows "u = v"
  using assms by (auto simp: wf_db_def distinct_map inj_on_def)

lemma wf_db_id_unique:
  assumes "wf_db db" and "u \<in> set (tbl_users db)" and "v \<in> set (tbl_users db)"
    and "u_id u = u_id v"
  shows "u = v"
  using assms by (auto simp: wf_db_def distinct_map inj_on_def)

lemma wf_db_id_pos: "wf_db db \<Longrightarrow> get_user_id name db = Some uid \<Longrightarrow> 0 < uid"
  by (auto dest!: get_user_id_Some simp: wf_db_def list_all_iff)

lemma delete_user_row_by_name:
  assumes "wf_db db" and "get_user_id name db = Some uid"
  shows "filter (\<lambda>u. Some (u_id u) \<noteq> Some uid) (tbl_users db) = filter (\<lambda>u. u_name u \<noteq> name) (tbl_users db)"
proof (rule filter_cong [OF refl])
  fix u assume u: "u \<in> set (tbl_users db)"
  from get_user_id_Some [OF assms(2)] obtain v where v: "v \<in> set (tbl_users db)" "u_name v = name" "u_id v = uid"
    by blast
  show "(Some (u_id u) \<noteq> Some uid) = (u_name u \<noteq> name)"
    using wf_db_user_unique [OF assms(1) u v(1)] wf_db_id_unique [OF assms(1) u v(1)] v by auto
qed

lemma delete_user_ok:
  assumes "wf_db db" and "name \<in> set (map u_name (tbl_users db))"
  shows "delete_user None name db =
           (db\<lparr>tbl_attendance := filter (\<lambda>r. Some (a_user_id r) \<noteq> get_user_id name db) (tbl_attendance db),
               tbl_users := filter (\<lambda>u. u_name u \<noteq> name) (tbl_users db)\<rparr>,
            (True, ''User '' @ name @ '' and all records deleted''))"
proof -
  from assms(2) obtain uid where uid: "get_user_id name db = Some uid"
    using get_user_id_None [of name db] by (cases "get_user_id name db") auto
  have pos: "0 < uid" using wf_db_id_pos [OF assms(1) uid] .
  show ?thesis
    using pos delete_user_row_by_name [OF assms(1) uid]
    by (simp add: delete_user_def uid falsy_def get_connection_two delete_attendance_of_def
        delete_user_row_def)
qed

lemma delete_user_atomic:
  "delete_user fault name db = delete_user None name db
   \<or> (fst (delete_user fault name db) = db \<and> \<not> fst (snd (delete_user fault name db)))"
  by (auto simp: delete_user_def get_connection_two Let_def split: option.splits)

lemma delete_user_not_found:
  "name \<notin> set (map u_name (tbl_users db)) \<Longrightarrow> delete_user fault name db = (db, (False, ''User not found''))"
  using get_user_id_None [of name db] by (simp add: delete_user_def falsy_def)

lemma get_user_history_unknown:
  "name \<notin> set (map u_name (tbl_users db)) \<Longrightarrow> get_user_history now name days db = Inr []"
  using get_user_id_None [of name db] by (simp add: get_user_history_def falsy_def)


text \<open>The table invariant holds at the start and every operation keeps it.\<close>

lemma wf_db_empty: "wf_db empty_db"
  by (simp add: wf_db_def empty_db_def)

lemma wf_db_add_user: "wf_db db \<Longrightarrow> wf_db (fst (add_user name db))"
  by (auto simp: wf_db_def add_user_def list_all_iff)

lemma wf_db_insert_attendance:
  "wf_db db \<Longrightarrow> insert_attendance user_id ty t d db = Inr db' \<Longrightarrow> wf_db db'"
  by (auto simp: wf_db_def insert_attendance_def split: option.splits if_splits)

lemma wf_db_punch: 
  assumes "wf_db db" shows "wf_db (fst (punch now name ty db))"
proof -
  have a: "wf_db (fst (add_user name db))" using assms by (rule wf_db_add_user)
  show ?thesis
    using assms a
    by (auto simp: punch_def Let_def split: prod.splits sum.splits option.splits if_splits
        dest: wf_db_insert_attendance)
qed

lemma wf_db_delete_user:
  assumes "wf_db db" shows "wf_db (fst (delete_user fault name db))"
proof -
  have "wf_db (delete_user_row u (delete_attendance_of u db))" for u
    using assms
    by (auto simp: wf_db_def delete_user_row_def delete_attendance_of_def distinct_map_filter
        list_all_iff)
  with assms show ?thesis
    by (auto simp: delete_user_def Let_def get_connection_two split: option.splits)
qed

text \<open>
  C8.  In a database that satisfies the table constraints: for an enrolled name,
  \<open>delete_user\<close> (storage working) succeeds, removes the user's row and every attendance
  row of that user and nothing else; afterwards the name is unknown, the history of the
  name is the empty dict for every clock and every \<open>days\<close>, and the statistics for every range
  have no entry for the name and are those of the attendance table without that user's
  rows.  Whatever call of the transaction fails, the outcome is either that of the
  working storage (both deletions) or a failure with the database unchanged.  For a name
  without a row it fails with "User not found" and changes nothing.
\<close>

theorem delete_user_cascade:
  assumes "wf_db db"
  shows "(name \<in> set (map u_name (tbl_users db)) \<longrightarrow>
            snd (delete_user None name db) = (True, ''User '' @ name @ '' and all records deleted'')
          \<and> tbl_users (fst (delete_user None name db)) =
              filter (\<lambda>u. u_name u \<noteq> name) (tbl_users db)
          \<and> tbl_attendance (fst (delete_user None name db)) =
              filter (\<lambda>r. Some (a_user_id r) \<noteq> get_user_id name db) (tbl_attendance db)
          \<and> name \<notin> set (map u_name (tbl_users (fst (delete_user None name db))))
          \<and> (\<forall>r \<in> set (tbl_attendance (fst (delete_user None name db))).
                Some (a_user_id r) \<noteq> get_user_id name db)
          \<and> (\<forall>now days. get_user_history now name days (fst (delete_user None name db)) = Inr [])
          \<and> (\<forall>now s e.
                by_user (get_statistics now s e (fst (delete_user None name db))) name = None
              \<and> by_type (get_statistics now s e (fst (delete_user None name db))) =
                  by_type (get_statistics now s e
                    (db\<lparr>tbl_attendance := filter (\<lambda>r. Some (a_user_id r) \<noteq> get_user_id name db)
                                             (tbl_attendance db)\<rparr>))
              \<and> daily (get_statistics now s e (fst (delete_user None name db))) =
                  daily (get_statistics now s e
                    (db\<lparr>tbl_attendance := filter (\<lambda>r. Some (a_user_id r) \<noteq> get_user_id name db)
                                             (tbl_attendance db)\<rparr>))))
       \<and> (\<forall>fault. delete_user fault name db = delete_user None name db
                 \<or> (fst (delete_user fault name db) = db
                     \<and> \<not> fst (snd (delete_user fault name db))))
       \<and> (name \<notin> set (map u_name (tbl_users db)) \<longrightarrow>
            (\<forall>fault. delete_user fault name db = (db, (False, ''User not found''))))"
proof (intro conjI impI allI)
  fix fault
  show "delete_user fault name db = delete_user None name db
        \<or> (fst (delete_user fault name db) = db \<and> \<not> fst (snd (delete_user fault name db)))"
    by (rule delete_user_atomic)
next
  fix fault
  assume "name \<notin> set (map u_name (tbl_users db))"
  then show "delete_user fault name db = (db, (False, ''User not found''))"
    by (rule delete_user_not_found)
next
  assume n: "name \<in> set (map u_name (tbl_users db))"
  note ok = delete_user_ok [OF assms n]
  show "snd (delete_user None name db) = (True, ''User '' @ name @ '' and all records deleted'')"
    by (simp add: ok)
  show u: "tbl_users (fst (delete_user None name db)) = filter (\<lambda>u. u_name u \<noteq> name) (tbl_users db)"
    by (simp add: ok)
  show a: "tbl_attendance (fst (delete_user None name db)) =
          filter (\<lambda>r. Some (a_user_id r) \<noteq> get_user_id name db) (tbl_attendance db)"
    by (simp add: ok)
  show gone: "name \<notin> set (map u_name (tbl_users (fst (delete_user None name db))))"
    unfolding u by auto
  show "\<forall>r \<in> set (tbl_attendance (fst (delete_user None name db))).
          Some (a_user_id r) \<noteq> get_user_id name db"
    by (simp add: a)
  show "get_user_history now name days (fst (delete_user None name db)) = Inr []" for now days
    using gone by (rule get_user_history_unknown)
  show "by_user (get_statistics now s e (fst (delete_user None name db))) name = None" for now s e
    using gone by (simp add: get_statistics_def Let_def)
  show "by_type (get_statistics now s e (fst (delete_user None name db))) =
          by_type (get_statistics now s e
            (db\<lparr>tbl_attendance := filter (\<lambda>r. Some (a_user_id r) \<noteq> get_user_id name db)
                                     (tbl_attendance db)\<rparr>))" for now s e
    by (simp add: get_statistics_def Let_def a)
  show "daily (get_statistics now s e (fst (delete_user None name db))) =
          daily (get_statistics now s e
            (db\<lparr>tbl_attendance := filter (\<lambda>r. Some (a_user_id r) \<noteq> get_user_id name db)
                                     (tbl_attendance db)\<rparr>))" for now s e
    by (simp add: get_statistics_def Let_def a)
qed

theorem delete_user_cascade_witness:
  "wf_db ledger0
   \<and> ''alice'' \<in> set (map u_name (tbl_users ledger0))
   \<and> snd (delete_user None ''alice'' ledger0) = (True, ''User alice and all records deleted'')
   \<and> map u_name (tbl_users (fst (delete_user None ''alice'' ledger0))) = [''bob'']
   \<and> map a_id (tbl_attendance (fst (delete_user None ''alice'' ledger0))) = [2]
   \<and> get_user_history 1728032400000000 ''alice'' 7 (fst (delete_user None ''alice'' ledger0))
        = Inr []
   \<and> by_user (get_statistics 1728032400000000 None None (fst (delete_user None ''alice'' ledger0)))
        ''alice'' = None
   \<and> ''carol'' \<notin> set (map u_name (tbl_users ledger0))
   \<and> delete_user (Some (1, ''disk I/O error'')) ''carol'' ledger0 = (ledger0, (False, ''User not found''))"
proof -
  have wf: "wf_db ledger0"
    by (simp add: wf_db_def ledger0_def)
  have a: "''alice'' \<in> set (map u_name (tbl_users ledger0))"
    by (simp add: ledger0_def)
  have c: "''carol'' \<notin> set (map u_name (tbl_users ledger0))"
    by (simp add: ledger0_def)
  have id: "get_user_id ''alice'' ledger0 = Some 1"
    by (simp add: get_user_id_def fetchone_def ledger0_def)
  note A = delete_user_cascade [OF wf, of "''alice''"]
  note C = delete_user_cascade [OF wf, of "''carol''"]
  have 1: "snd (delete_user None ''alice'' ledger0) = (True, ''User alice and all records deleted'')"
    using A a by simp
  have "tbl_users (fst (delete_user None ''alice'' ledger0)) =
          filter (\<lambda>u. u_name u \<noteq> ''alice'') (tbl_users ledger0)"
    using A a by blast
  then have 2: "map u_name (tbl_users (fst (delete_user None ''alice'' ledger0))) = [''bob'']"
    by (simp add: ledger0_def)
  have "tbl_attendance (fst (delete_user None ''alice'' ledger0)) =
          filter (\<lambda>r. Some (a_user_id r) \<noteq> get_user_id ''alice'' ledger0) (tbl_attendance ledger0)"
    using A a by blast
  then have 3: "map a_id (tbl_attendance (fst (delete_user None ''alice'' ledger0))) = [2]"
    by (simp add: id) (simp add: ledger0_def)
  have 4: "get_user_history 1728032400000000 ''alice'' 7 (fst (delete_user None ''alice'' ledger0))
        = Inr []"
    using A a by blast
  have 5: "by_user (get_statistics 1728032400000000 None None (fst (delete_user None ''alice'' ledger0)))
        ''alice'' = None"
    using A a by blast
  have 6: "delete_user (Some (1, ''disk I/O error'')) ''carol'' ledger0 = (ledger0, (False, ''User not found''))"
    using C c by blast
  from wf a 1 2 3 4 5 c 6 show ?thesis by blast
qed

section \<open>Punching\<close>

lemma fetchone_order_by_least:
  assumes "x \<in> set rows" and "\<forall>y \<in> set rows. y \<noteq> x \<longrightarrow> key x < key y"
  shows "fetchone (order_by key rows) = Some x"
proof -
  have s: "set (sort_key key rows) = set rows" by simp
  with assms(1) obtain h t where ht: "sort_key key rows = h # t"
    by (cases "sort_key key rows") auto
  have "sorted (map key (sort_key key rows))" by (rule sorted_sort_key)
  with ht have le: "\<forall>y \<in> set (h # t). key h \<le> key y" by auto
  from ht s have hin: "h \<in> set rows" by (metis list.set_intros(1))
  from assms(1) s ht have "x \<in> set (h # t)" by simp
  with le have "key h \<le> key x" by blast
  with assms(2) hin have "h = x" by force
  with ht show ?thesis by (simp add: fetchone_def order_by_def)
qed

lemma fetchone_order_by_empty: "fetchone (order_by key []) = None"
  by (simp add: fetchone_def order_by_def)

lemma timedelta_seconds_stored:
  "timedelta_seconds (now - t * 1000000) = (second_of now - t) mod 86400"
proof -
  have "(now - t * 1000000) div 1000000 = now div 1000000 - t"
    by (simp add: algebra_simps div_mult_self1 [of "1000000::int" now "- t", simplified])
  then show ?thesis by (simp add: timedelta_seconds_def second_of_def)
qed

lemma second_of_mono: "now1 \<le> now2 \<Longrightarrow> second_of now1 \<le> second_of now2"
  by (simp add: second_of_def zdiv_mono1)

lemma date_of_mono: "now1 \<le> now2 \<Longrightarrow> date_of now1 \<le> date_of now2"
  by (simp add: date_of_def second_of_mono zdiv_mono1)

lemma same_date_seconds:
  assumes "now1 \<le> now2" and "date_of now2 = date_of now1"
  shows "0 \<le> second_of now2 - second_of now1 \<and> second_of now2 - second_of now1 < 86400"
proof -
  have "second_of now1 \<le> second_of now2" using assms(1) by (rule second_of_mono)
  moreover have "second_of now2 div 86400 = second_of now1 div 86400"
    using assms(2) by (simp add: date_of_def)
  ultimately show ?thesis by presburger
qed

lemma get_user_id_add_user:
  assumes "name \<notin> set (map u_name (tbl_users db))"
  shows "get_user_id name (fst (add_user name db)) = Some (seq_users db + 1)"
proof -
  have "filter (\<lambda>u. u_name u = name) (tbl_users db) = []"
    using assms by (auto simp: filter_empty_conv)
  then show ?thesis
    using assms by (simp add: add_user_def get_user_id_def fetchone_def)
qed

lemma punch_known_user:
  assumes "get_user_id name db = Some uid" and "0 < uid"
  shows "punch now name ty db =
     (case (case last_record (Some uid) (date_of now) db of
              None \<Rightarrow> None
            | Some r \<Rightarrow> if a_punch_type r = ty
                           \<and> timedelta_seconds (now - a_punch_time r * 1000000) < 300
                        then Some (a_punch_time r) else None) of
        Some last_time \<Rightarrow>
          (db, Inr (False, ''Already punched '' @ ty @ '' at '' @ strftime_HMS last_time))
      | None \<Rightarrow>
          (case insert_attendance (Some uid) ty (second_of now) (date_of now) db of
             Inl e \<Rightarrow> (db, Inl e)
           | Inr db2 \<Rightarrow> (db2, Inr (True, ''Punched '' @ ty @ '' successfully at ''
                                        @ strftime_HMS (second_of now)))))"
  using assms by (simp add: punch_def falsy_def Let_def split: option.splits)

lemma insert_attendance_Inr:
  assumes "insert_attendance (Some uid) ty t d db = Inr db2"
  shows "ty \<in> set punch_types
       \<and> db2 = db\<lparr>tbl_attendance := tbl_attendance db @
                     [\<lparr>a_id = seq_attendance db + 1, a_user_id = uid, a_punch_type = ty,
                       a_punch_time = t, a_date = d\<rparr>],
                   seq_attendance := seq_attendance db + 1\<rparr>"
  using assms by (auto simp: insert_attendance_def split: if_splits)

lemma punch_known_user_success:
  assumes "get_user_id name db = Some uid" and "0 < uid"
    and "punch now name ty db = (db1, Inr (True, msg))"
  shows "ty \<in> set punch_types
       \<and> db1 = db\<lparr>tbl_attendance := tbl_attendance db @ [new_row db uid ty now],
                   seq_attendance := seq_attendance db + 1\<rparr>"
  using assms(3) unfolding punch_known_user [OF assms(1,2)] new_row_def
  by (auto split: option.splits sum.splits if_splits dest!: insert_attendance_Inr)

lemma punch_success:
  assumes "punch now name ty db = (db1, Inr (True, msg))"
  shows "\<exists>uid dbu. 0 < uid \<and> get_user_id name db1 = Some uid \<and> ty \<in> set punch_types
           \<and> tbl_attendance dbu = tbl_attendance db \<and> seq_attendance dbu = seq_attendance db
           \<and> db1 = dbu\<lparr>tbl_attendance := tbl_attendance db @ [new_row db uid ty now],
                        seq_attendance := seq_attendance db + 1\<rparr>"
proof (cases "falsy (get_user_id name db)")
  case False
  then obtain uid where uid: "get_user_id name db = Some uid" "0 < uid"
    by (auto simp: falsy_def)
  from punch_known_user_success [OF uid assms]
  have *: "ty \<in> set punch_types"
    "db1 = db\<lparr>tbl_attendance := tbl_attendance db @ [new_row db uid ty now],
              seq_attendance := seq_attendance db + 1\<rparr>" by auto
  have "get_user_id name db1 = Some uid"
    using uid(1) by (simp add: * get_user_id_def)
  with uid(2) * show ?thesis by (intro exI [of _ uid] exI [of _ db]) simp
next
  case True
  show ?thesis
  proof (cases "name \<in> set (map u_name (tbl_users db))")
    case known: True
    with True assms show ?thesis
      by (simp add: punch_def add_user_def)
  next
    case unknown: False
    define dbu where "dbu = fst (add_user name db)"
    have au: "add_user name db = (dbu, (True, ''User '' @ name @ '' added successfully''))"
      using unknown by (simp add: dbu_def add_user_def)
    have uid: "get_user_id name dbu = Some (seq_users db + 1)" "0 < seq_users db + 1"
      using get_user_id_add_user [OF unknown] by (simp_all add: dbu_def)
    have same: "tbl_attendance dbu = tbl_attendance db" "seq_attendance dbu = seq_attendance db"
      using unknown by (simp_all add: dbu_def add_user_def)
    have "punch now name ty db = punch now name ty dbu"
      using True uid by (simp add: punch_def au falsy_def Let_def)
    with assms have p: "punch now name ty dbu = (db1, Inr (True, msg))" by simp
    from punch_known_user_success [OF uid p]
    have *: "ty \<in> set punch_types"
      "db1 = dbu\<lparr>tbl_attendance := tbl_attendance db @ [new_row db (seq_users db + 1) ty now],
                 seq_attendance := seq_attendance db + 1\<rparr>"
      by (auto simp: same new_row_def)
    have "get_user_id name db1 = Some (seq_users db + 1)"
      using uid(1) by (simp add: * get_user_id_def)
    with uid(2) * same show ?thesis
      by (intro exI [of _ "seq_users db + 1"] exI [of _ dbu]) simp
  qed
qed


text \<open>
  What the look-up of the SQLite ledger does give.  Let a punch of some type by a user be
  stored, at a moment when every earlier event of that user lies on an earlier date or on
  the same date at a strictly earlier second, and let the same user punch the same type
  again, not earlier.  The first call has stored exactly one event.  If the second call
  falls on the same calendar date and fewer than 300 whole seconds after the recorded
  second of the first, it fails with "Already punched <type> at <HH:MM:SS of the first>"
  and the database is unchanged.  If it falls on another date, or 300 seconds or more
  after the recorded second of the first, it succeeds and the two calls have stored two
  events.
\<close>

lemma punch_dedup:
  assumes first: "punch now1 name ty db = (db1, Inr (True, msg1))"
    and older: "\<forall>r \<in> set (tbl_attendance db). Some (a_user_id r) = get_user_id name db1 \<longrightarrow>
                  a_date r < date_of now1
                  \<or> (a_date r = date_of now1 \<and> a_punch_time r < second_of now1)"
    and later: "now1 \<le> now2"
  shows "length (tbl_attendance db1) = length (tbl_attendance db) + 1
       \<and> (date_of now2 = date_of now1 \<and> second_of now2 - second_of now1 < 300 \<longrightarrow>
            punch now2 name ty db1 =
              (db1, Inr (False, ''Already punched '' @ ty @ '' at ''
                                  @ strftime_HMS (second_of now1))))
       \<and> (date_of now2 \<noteq> date_of now1 \<or> 300 \<le> second_of now2 - second_of now1 \<longrightarrow>
            snd (punch now2 name ty db1) =
              Inr (True, ''Punched '' @ ty @ '' successfully at ''
                           @ strftime_HMS (second_of now2))
            \<and> length (tbl_attendance (fst (punch now2 name ty db1)))
                = length (tbl_attendance db) + 2)"
proof -
  from punch_success [OF first] obtain uid dbu where
    uid: "0 < uid" "get_user_id name db1 = Some uid" and ty: "ty \<in> set punch_types"
    and db1: "tbl_attendance db1 = tbl_attendance db @ [new_row db uid ty now1]"
    by auto
  let ?new = "new_row db uid ty now1"
  let ?sel = "filter (\<lambda>r. Some (a_user_id r) = Some uid \<and> a_date r = date_of now2)
                (tbl_attendance db1)"
  note unfold = punch_known_user [OF uid(2) uid(1), of now2 ty]
  have ins: "insert_attendance (Some uid) ty (second_of now2) (date_of now2) db1 =
      Inr (db1\<lparr>tbl_attendance := tbl_attendance db1 @
                    [\<lparr>a_id = seq_attendance db1 + 1, a_user_id = uid, a_punch_type = ty,
                      a_punch_time = second_of now2, a_date = date_of now2\<rparr>],
               seq_attendance := seq_attendance db1 + 1\<rparr>)"
    using ty by (simp add: insert_attendance_def)
  have len: "length (tbl_attendance db1) = length (tbl_attendance db) + 1"
    by (simp add: db1)
  have same: "last_record (Some uid) (date_of now2) db1 = Some ?new"
    if d: "date_of now2 = date_of now1"
  proof -
    have "?new \<in> set ?sel"
      by (simp add: db1 new_row_def d)
    moreover have "\<forall>y \<in> set ?sel. y \<noteq> ?new \<longrightarrow> - a_punch_time ?new < - a_punch_time y"
      using older by (auto simp: db1 uid(2) d new_row_def)
    ultimately show ?thesis
      unfolding last_record_def by (rule fetchone_order_by_least)
  qed
  have other: "last_record (Some uid) (date_of now2) db1 = None"
    if d: "date_of now2 \<noteq> date_of now1"
  proof -
    have "date_of now1 < date_of now2"
      using date_of_mono [OF later] d by simp
    then have "?sel = []"
      using older by (auto simp: db1 uid(2) new_row_def filter_empty_conv)
    then show ?thesis
      by (simp add: last_record_def fetchone_order_by_empty)
  qed
  have dup: "punch now2 name ty db1 =
      (db1, Inr (False, ''Already punched '' @ ty @ '' at '' @ strftime_HMS (second_of now1)))"
    if d: "date_of now2 = date_of now1" and w: "second_of now2 - second_of now1 < 300"
  proof -
    have "timedelta_seconds (now2 - a_punch_time ?new * 1000000) < 300"
      using same_date_seconds [OF later d] w
      by (simp add: timedelta_seconds_stored new_row_def)
    then show ?thesis
      unfolding unfold same [OF d] by (simp add: new_row_def)
  qed
  have stored: "punch now2 name ty db1 =
      (db1\<lparr>tbl_attendance := tbl_attendance db1 @
                    [\<lparr>a_id = seq_attendance db1 + 1, a_user_id = uid, a_punch_type = ty,
                      a_punch_time = second_of now2, a_date = date_of now2\<rparr>],
           seq_attendance := seq_attendance db1 + 1\<rparr>,
       Inr (True, ''Punched '' @ ty @ '' successfully at '' @ strftime_HMS (second_of now2)))"
    if w: "date_of now2 \<noteq> date_of now1 \<or> 300 \<le> second_of now2 - second_of now1"
  proof (cases "date_of now2 = date_of now1")
    case False
    show ?thesis
      unfolding unfold other [OF False] by (simp add: ins)
  next
    case True
    with w have "300 \<le> second_of now2 - second_of now1" by simp
    then have "\<not> timedelta_seconds (now2 - a_punch_time ?new * 1000000) < 300"
      using same_date_seconds [OF later True]
      by (simp add: timedelta_seconds_stored new_row_def)
    then show ?thesis
      unfolding unfold same [OF True] by (simp add: ins)
  qed
  show ?thesis
    using len dup stored by (auto simp: db1)
qed


lemma digit_char_simps:
  "digit_char 0 = CHR ''0''" "digit_char 1 = CHR ''1''" "digit_char 2 = CHR ''2''"
  "digit_char 3 = CHR ''3''" "digit_char 4 = CHR ''4''" "digit_char 5 = CHR ''5''"
  "digit_char 6 = CHR ''6''" "digit_char 7 = CHR ''7''" "digit_char 8 = CHR ''8''"
  "digit_char 9 = CHR ''9''" "digit_char (Suc 0) = CHR ''1''"
  by code_simp+

lemma hms_1800: "strftime_HMS 1728064800 = ''18:00:00''"
  by (simp add: strftime_HMS_def two_digits_def digit_char_simps)

lemma hms_2358: "strftime_HMS 1728086280 = ''23:58:00''"
  by (simp add: strftime_HMS_def two_digits_def digit_char_simps)

lemma hms_0001: "strftime_HMS 1728086460 = ''00:01:00''"
  by (simp add: strftime_HMS_def two_digits_def digit_char_simps)

lemma get_user_id_alice: "get_user_id ''alice'' ledger0 = Some 1"
  by (simp add: get_user_id_def fetchone_def ledger0_def)

lemma punch_1800: "punch t_1800 ''alice'' ''in'' ledger0 = (ledger1, Inr (True, ''Punched in successfully at 18:00:00''))"
proof -
  have s: "second_of t_1800 = 1728064800" and d: "date_of t_1800 = 20000"
    by (simp_all add: second_of_def date_of_def t_1800_def)
  have l: "last_record (Some 1) 20000 ledger0 = Some \<lparr>a_id = 3, a_user_id = 1, a_punch_type = ''out'', a_punch_time = 1728061200, a_date = 20000\<rparr>"
    by (simp add: last_record_def order_by_def fetchone_def ledger0_def)
  show ?thesis
    unfolding punch_known_user [OF get_user_id_alice zero_less_one] s d l
    by (simp add: insert_attendance_def punch_types_def hms_1800 ledger1_def ledger0_def)
qed

lemma punch_2358: "punch t_2358 ''alice'' ''in'' empty_db =
  (\<lparr>tbl_users = [\<lparr>u_id = 1, u_name = ''alice''\<rparr>],
     tbl_attendance = [\<lparr>a_id = 1, a_user_id = 1, a_punch_type = ''in'', a_punch_time = 1728086280, a_date = 20000\<rparr>],
     seq_users = 1, seq_attendance = 1\<rparr>, Inr (True, ''Punched in successfully at 23:58:00''))"
proof -
  have s: "second_of t_2358 = 1728086280" and d: "date_of t_2358 = 20000"
    by (simp_all add: second_of_def date_of_def t_2358_def)
  show ?thesis
    unfolding punch_def s d
    by (simp add: empty_db_def get_user_id_def fetchone_def falsy_def add_user_def
        last_record_def order_by_def insert_attendance_def punch_types_def hms_2358)
qed


lemma punch_0001: "punch (t_2358 + 180000000) ''alice'' ''in'' (fst (punch t_2358 ''alice'' ''in'' empty_db)) =
  (\<lparr>tbl_users = [\<lparr>u_id = 1, u_name = ''alice''\<rparr>],
     tbl_attendance = [\<lparr>a_id = 1, a_user_id = 1, a_punch_type = ''in'', a_punch_time = 1728086280, a_date = 20000\<rparr>,
        \<lparr>a_id = 2, a_user_id = 1, a_punch_type = ''in'', a_punch_time = 1728086460, a_date = 20001\<rparr>],
     seq_users = 1, seq_attendance = 2\<rparr>, Inr (True, ''Punched in successfully at 00:01:00''))"
proof -
  have s: "second_of (t_2358 + 180000000) = 1728086460" and d: "date_of (t_2358 + 180000000) = 20001"
    by (simp_all add: second_of_def date_of_def t_2358_def)
  have f: "fst (punch t_2358 ''alice'' ''in'' empty_db) =
     \<lparr>tbl_users = [\<lparr>u_id = 1, u_name = ''alice''\<rparr>],
       tbl_attendance = [\<lparr>a_id = 1, a_user_id = 1, a_punch_type = ''in'', a_punch_time = 1728086280, a_date = 20000\<rparr>],
       seq_users = 1, seq_attendance = 1\<rparr>"
    by (simp only: punch_2358 fst_conv)
  show ?thesis
    unfolding f
    by (simp add: punch_def s d get_user_id_def fetchone_def falsy_def
        last_record_def order_by_def insert_attendance_def punch_types_def hms_0001)
qed

text \<open>The same on the small ledger: a repeat after 299.999999 s and one after 300 s.\<close>

lemma punch_dedup_example:
  "punch t_1800 ''alice'' ''in'' ledger0 = (ledger1, Inr (True, ''Punched in successfully at 18:00:00''))
   \<and> map a_punch_time (filter (\<lambda>r. a_user_id r = 1) (tbl_attendance ledger0))
        = [1728032400, 1728061200]
   \<and> second_of t_1800 = 1728064800
   \<and> t_1800 \<le> t_1800 + 299999999
   \<and> length (tbl_attendance ledger1) = 4
   \<and> punch (t_1800 + 299999999) ''alice'' ''in'' ledger1 =
        (ledger1, Inr (False, ''Already punched in at 18:00:00''))
   \<and> snd (punch (t_1800 + 300000000) ''alice'' ''in'' ledger1) =
        Inr (True, ''Punched in successfully at 18:05:00'')
   \<and> length (tbl_attendance (fst (punch (t_1800 + 300000000) ''alice'' ''in'' ledger1))) = 5"
proof -
  have s: "second_of t_1800 = 1728064800" and d: "date_of t_1800 = 20000"
    by (simp_all add: second_of_def date_of_def t_1800_def)
  have s1: "second_of (t_1800 + 299999999) = 1728065099"
    and d1: "date_of (t_1800 + 299999999) = 20000"
    by (simp_all add: second_of_def date_of_def t_1800_def)
  have s2: "second_of (t_1800 + 300000000) = 1728065100"
    and d2: "date_of (t_1800 + 300000000) = 20000"
    by (simp_all add: second_of_def date_of_def t_1800_def)
  have hms: "strftime_HMS 1728065100 = ''18:05:00''"
    by (simp add: strftime_HMS_def two_digits_def digit_char_simps)
  have older: "\<forall>r \<in> set (tbl_attendance ledger0). Some (a_user_id r) = get_user_id ''alice'' ledger1 \<longrightarrow>
          a_date r < date_of t_1800
          \<or> (a_date r = date_of t_1800 \<and> a_punch_time r < second_of t_1800)"
    unfolding s d by (simp add: ledger0_def ledger1_def get_user_id_def fetchone_def)
  have l0: "length (tbl_attendance ledger0) = 3"
    by (simp add: ledger0_def)
  have a: "t_1800 \<le> t_1800 + 299999999" and b: "t_1800 \<le> t_1800 + 300000000"
    by simp_all
  have rows: "map a_punch_time (filter (\<lambda>r. a_user_id r = 1) (tbl_attendance ledger0))
        = [1728032400, 1728061200]"
    by (simp add: ledger0_def)
  from punch_dedup [OF punch_1800 older a] punch_dedup [OF punch_1800 older b] punch_1800 a rows
  show ?thesis
    unfolding s d s1 d1 s2 d2 l0 hms hms_1800 by simp
qed

section \<open>History\<close>

lemma keys_dict_append:
  "map fst (dict_append k v h) = (if k \<in> fst ` set h then map fst h else map fst h @ [k])"
  by (induction h) force+

lemma map_of_dict_append:
  "map_of (dict_append k v h) = (map_of h)(k \<mapsto> dict_get h k [] @ [v])"
  by (induction h) (auto simp: dict_get_def fun_eq_iff)

lemma set_keys_history_loop:
  "fst ` set (history_loop rs h) = fst ` set h \<union> a_date ` set rs"
proof (induction rs arbitrary: h)
  case Nil
  show ?case by simp
next
  case (Cons r rs)
  have "fst ` set (dict_append (a_date r) (event_of r) h) = insert (a_date r) (fst ` set h)"
    using keys_dict_append [of "a_date r" "event_of r" h]
    by (metis (no_types, lifting) insert_absorb list.set_map list.simps(15) set_append
        Un_insert_right sup_bot.right_neutral set_simps(1) empty_set)
  then show ?case
    by (simp add: Cons.IH)
qed

lemma map_of_history_loop:
  "map_of (history_loop rs h) d =
     (if d \<in> fst ` set h \<or> d \<in> a_date ` set rs
      then Some (dict_get h d [] @ map event_of (filter (\<lambda>r. a_date r = d) rs))
      else None)"
proof (induction rs arbitrary: h)
  case Nil
  show ?case
    by (cases "map_of h d") (auto simp: dict_get_def map_of_eq_None_iff dest: map_of_SomeD intro: rev_image_eqI)
next
  case (Cons r rs)
  have k: "fst ` set (dict_append (a_date r) (event_of r) h) = insert (a_date r) (fst ` set h)"
    using set_keys_history_loop [of "[r]" h] by simp
  show ?case
    by (simp add: Cons.IH k dict_get_def map_of_dict_append)
qed

lemma keys_history_loop_descending:
  assumes "sorted_wrt (\<lambda>a b. b < a) (map fst h)"
    and "\<forall>k \<in> fst ` set h. \<forall>r \<in> set rs. a_date r \<le> k"
    and "sorted_wrt (\<lambda>a b. a_date b \<le> a_date a) rs"
  shows "sorted_wrt (\<lambda>a b. b < a) (map fst (history_loop rs h))"
  using assms
proof (induction rs arbitrary: h)
  case Nil
  then show ?case by simp
next
  case (Cons r rs)
  let ?h = "dict_append (a_date r) (event_of r) h"
  have 1: "sorted_wrt (\<lambda>a b. b < a) (map fst ?h)"
    using Cons.prems(1,2) by (auto simp: keys_dict_append sorted_wrt_append order_le_less)
  have k: "fst ` set ?h = insert (a_date r) (fst ` set h)"
    using set_keys_history_loop [of "[r]" h] by simp
  have 2: "\<forall>k \<in> fst ` set ?h. \<forall>r \<in> set rs. a_date r \<le> k"
    unfolding k using Cons.prems(2,3) by auto
  have 3: "sorted_wrt (\<lambda>a b. a_date b \<le> a_date a) rs"
    using Cons.prems(3) by simp
  show ?case
    using Cons.IH [OF 1 2 3] by simp
qed


lemma strictly_descending_distinct: "sorted_wrt (\<lambda>a b. b < a) (xs :: int list) \<Longrightarrow> distinct xs"
  by (induction xs) auto

lemma start_date_days: "date_of (now - days * 86400000000) = date_of now - days"
proof -
  have "date_of x = x div 86400000000" for x
    by (simp add: date_of_def second_of_def zdiv_zmult2_eq)
  moreover have "(now - days * 86400000000) div 86400000000 = now div 86400000000 - days"
    by (simp add: algebra_simps div_mult_self1 [of "86400000000::int" now "- days", simplified])
  ultimately show ?thesis by simp
qed

lemma minus_days_in_range:
  assumes "\<bar>days\<bar> \<le> 999999999" and "four_digit_year (date_of now - days)"
  shows "minus_days now days = Inr (now - days * 86400000000)"
  using assms by (simp add: minus_days_def four_digit_year_def min_day_def max_day_def)

lemma minus_days_overflow:
  assumes "999999999 < \<bar>days\<bar> \<or> date_of now - days < min_day \<or> max_day < date_of now - days"
  shows "minus_days now days = Inl OverflowError"
  using assms by (auto simp: minus_days_def)

text \<open>The grouped result for any list of selected rows, scanned in descending rowid order.\<close>

lemma history_loop_sorted_rows:
  fixes rows :: "attendance_row list"
  defines "H \<equiv> history_loop (order_by (\<lambda>r. (- a_date r, - a_punch_time r)) (rev rows)) []"
  shows "sorted_wrt (\<lambda>a b. b < a) (map fst H)"
    and "fst ` set H = a_date ` set rows"
    and "(d, evs) \<in> set H \<Longrightarrow>
           evs \<noteq> []
           \<and> (\<exists>rs. evs = map event_of rs
                  \<and> mset rs = mset (filter (\<lambda>r. a_date r = d) rows)
                  \<and> sorted_wrt (\<lambda>a b. a_punch_time b \<le> a_punch_time a) rs)"
proof -
  let ?key = "\<lambda>r. (- a_date r, - a_punch_time r)"
  let ?srt = "order_by ?key (rev rows)"
  have srt: "sorted_wrt (\<lambda>a b. ?key a \<le> ?key b) ?srt"
    using sorted_sort_key [of ?key "rev rows"] by (simp add: order_by_def sorted_map)
  have by_date: "sorted_wrt (\<lambda>a b. a_date b \<le> a_date a) ?srt"
    by (rule sorted_wrt_mono_rel [OF _ srt]) (auto simp: less_eq_prod_def)
  show desc: "sorted_wrt (\<lambda>a b. b < a) (map fst H)"
    unfolding H_def by (rule keys_history_loop_descending) (simp_all add: by_date)
  show keys: "fst ` set H = a_date ` set rows"
    unfolding H_def by (simp add: set_keys_history_loop order_by_def)
  assume mem: "(d, evs) \<in> set H"
  let ?rs = "filter (\<lambda>r. a_date r = d) ?srt"
  have "distinct (map fst H)"
    using desc by (rule strictly_descending_distinct)
  with mem have "map_of H d = Some evs"
    by simp
  then have evs: "evs = map event_of ?rs" and has: "d \<in> a_date ` set ?srt"
    unfolding H_def by (auto simp: map_of_history_loop dict_get_def split: if_splits)
  from has have ne: "?rs \<noteq> []"
    by (auto simp: filter_empty_conv)
  have m: "mset ?rs = mset (filter (\<lambda>r. a_date r = d) rows)"
    by (simp add: order_by_def)
  have "sorted_wrt (\<lambda>a b. ?key a \<le> ?key b) ?rs"
    using srt by (rule sorted_wrt_filter)
  then have t: "sorted_wrt (\<lambda>a b. a_punch_time b \<le> a_punch_time a) ?rs"
    by (rule sorted_wrt_mono_rel [rotated]) (auto simp: less_eq_prod_def)
  from evs ne m t show "evs \<noteq> []
           \<and> (\<exists>rs. evs = map event_of rs
                  \<and> mset rs = mset (filter (\<lambda>r. a_date r = d) rows)
                  \<and> sorted_wrt (\<lambda>a b. a_punch_time b \<le> a_punch_time a) rs)"
    by blast
qed

text \<open>In the range of four-digit years the selection is the one by day numbers.\<close>

lemma get_user_history_sqlite:
  fixes now days :: int
  assumes uid: "get_user_id name db = Some uid" "0 < uid"
    and range: "\<bar>days\<bar> \<le> 999999999" "four_digit_year (date_of now - days)"
    and dates: "four_digit_dates db"
  shows "get_user_history now name days db =
           Inr (history_loop (order_by (\<lambda>r. (- a_date r, - a_punch_time r))
                  (rev (rows_since uid (date_of now - days) db))) [])"
proof -
  have sel: "filter (\<lambda>r. a_user_id r = uid \<and> date_ge (a_date r) (date_of now - days))
               (tbl_attendance db) = rows_since uid (date_of now - days) db"
    unfolding rows_since_def
  proof (rule filter_cong [OF refl])
    fix r assume "r \<in> set (tbl_attendance db)"
    with dates have "four_digit_year (a_date r)"
      by (simp add: four_digit_dates_def list_all_iff)
    with range(2) show "(a_user_id r = uid \<and> date_ge (a_date r) (date_of now - days))
        = (a_user_id r = uid \<and> date_of now - days \<le> a_date r)"
      by (simp add: date_ge_def)
  qed
  show ?thesis
    using uid
    by (simp add: get_user_history_def falsy_def Let_def minus_days_in_range [OF range]
        start_date_days sel)
qed

lemma get_user_history_overflow:
  assumes "get_user_id name db = Some uid" "0 < uid"
    and "999999999 < \<bar>days\<bar> \<or> date_of now - days < min_day \<or> max_day < date_of now - days"
  shows "get_user_history now name days db = Inl OverflowError"
  using assms(1,2)
  by (simp add: get_user_history_def falsy_def Let_def minus_days_overflow [OF assms(3)])

lemma get_user_history_json_known:
  assumes "map_of records name = Some by_date" and "0 \<le> days"
  shows "map fst (get_user_history_json name days records) =
           take (nat days) (rev (sort (map fst by_date)))"
    and "(d, evs) \<in> set (get_user_history_json name days records) \<Longrightarrow>
           map_of by_date d = Some evs"
proof -
  let ?dates = "take (nat days) (rev (sort (map fst by_date)))"
  have J: "get_user_history_json name days records =
             map (\<lambda>date. (date, dict_get by_date date [])) ?dates"
    using assms by (simp add: get_user_history_json_def slice_to_def)
  show "map fst (get_user_history_json name days records) = ?dates"
    unfolding J by (simp add: comp_def)
  assume "(d, evs) \<in> set (get_user_history_json name days records)"
  then have d: "d \<in> set ?dates" and e: "evs = dict_get by_date d []"
    unfolding J by auto
  from d have "d \<in> fst ` set by_date"
    by (auto dest!: in_set_takeD)
  then obtain v where "map_of by_date d = Some v"
    by (cases "map_of by_date d") (auto simp: map_of_eq_None_iff)
  with e show "map_of by_date d = Some evs"
    by (simp add: dict_get_def)
qed


lemma list_all_update:
  "list_all P al \<Longrightarrow> P (k, v) \<Longrightarrow> list_all P (AList.update k v al)"
  by (induction al) auto

lemma dict_get_update: "dict_get (AList.update k v al) k dflt = v"
  by (simp add: dict_get_def update_conv')

lemma dict_get_list_all:
  assumes "list_all P al" and "k \<in> fst ` set al"
  shows "P (k, dict_get al k dflt)"
proof -
  from assms(2) obtain v where v: "map_of al k = Some v"
    by (cases "map_of al k") (auto simp: map_of_eq_None_iff)
  then have "(k, v) \<in> set al" by (rule map_of_SomeD)
  with assms(1) v show ?thesis by (auto simp: list_all_iff dict_get_def)
qed

lemma punch_json_no_empty_days:
  assumes inv: "no_empty_days records"
  shows "no_empty_days (fst (punch_json now name punch_type records))"
proof -
  define records1 where
    "records1 = (if name \<notin> set (map fst records) then AList.update name [] records else records)"
  define by_date where "by_date = dict_get records1 name []"
  define by_date1 where
    "by_date1 = (if date_of now \<notin> set (map fst by_date)
                 then AList.update (date_of now) [] by_date else by_date)"
  define today where "today = dict_get by_date1 (date_of now) []"
  define ev where "ev = \<lparr>ev_type = punch_type, ev_time = strftime_HMS (second_of now)\<rparr>"
  let ?days = "list_all (\<lambda>(date, evs :: punch_event list). evs \<noteq> [])"
  let ?P = "\<lambda>(name :: string, by_date). ?days by_date"
  have bd: "?days by_date"
  proof (cases "name \<in> set (map fst records)")
    case True
    then have "?P (name, dict_get records name [])"
      using inv dict_get_list_all [where P = ?P and al = records and k = name]
      by (simp add: no_empty_days_def)
    with True show ?thesis by (simp add: by_date_def records1_def)
  next
    case False
    then show ?thesis by (simp add: by_date_def records1_def dict_get_update)
  qed
  have r1: "list_all ?P (AList.update name bd' records1)" if "?days bd'" for bd'
  proof (cases "name \<in> set (map fst records)")
    case True
    with inv that show ?thesis
      by (simp add: records1_def no_empty_days_def list_all_update)
  next
    case False
    with inv that show ?thesis
      by (simp add: records1_def no_empty_days_def list_all_update)
  qed
  have unfold: "fst (punch_json now name punch_type records) =
      (if length today > 0 \<and> ev_type (last today) = punch_type
       then AList.update name by_date1 records1
       else AList.update name (AList.update (date_of now) (today @ [ev]) by_date1) records1)"
    by (simp add: punch_json_def Let_def records1_def by_date_def by_date1_def today_def ev_def)
  show ?thesis
  proof (cases "length today > 0 \<and> ev_type (last today) = punch_type")
    case True
    then have "today \<noteq> []" by auto
    then have "date_of now \<in> set (map fst by_date)"
      by (auto simp: today_def by_date1_def dict_get_update split: if_splits)
    then have "by_date1 = by_date" by (simp add: by_date1_def)
    with bd r1 True show ?thesis
      by (simp add: unfold no_empty_days_def)
  next
    case False
    have "AList.update (date_of now) (today @ [ev]) by_date1 =
          AList.update (date_of now) (today @ [ev]) by_date"
      by (simp add: by_date1_def)
    moreover have "?days (AList.update (date_of now) (today @ [ev]) by_date)"
      using bd by (simp add: list_all_update)
    ultimately have "list_all ?P
        (AList.update name (AList.update (date_of now) (today @ [ev]) by_date1) records1)"
      using r1 by simp
    moreover have "fst (punch_json now name punch_type records) =
        AList.update name (AList.update (date_of now) (today @ [ev]) by_date1) records1"
      using False unfolding unfold by (simp only: if_False)
    ultimately show ?thesis
      by (simp add: no_empty_days_def)
  qed
qed


text \<open>
  C7 as amended.  With the SQLite ledger (database.py), for a known user, at most
  999999999 days in magnitude, a start date today minus \<open>days\<close> within the years 1000
  to 9999 and stored dates within those years: \<open>history\<close> returns a dict whose dates
  are strictly descending (newest first) and are exactly the dates on or after the start
  date on which the user has a row (a calendar window, not the most recent \<open>days\<close>
  dates with events); the list of a date holds exactly the user's events of that date in
  descending order of punch time (newest first) and is never empty.  When \<open>days\<close>
  exceeds 999999999 in magnitude or the start date falls outside the years 1 to 9999, the
  call raises \<open>OverflowError\<close>.  For an unknown user the result is the empty dict.  With
  the JSON file (attendance.py), for a recorded user and \<open>days \<ge> 0\<close>, the dates are the
  first \<open>days\<close> of the user's recorded dates in descending order, each with its list as
  recorded (insertion order), and no list is empty when no recorded list is; for a user
  without records the result is empty.
\<close>

theorem get_user_history_contents:
  fixes now days :: int
  shows
  "(get_user_id name db = Some uid \<and> 0 < uid \<and> \<bar>days\<bar> \<le> 999999999
      \<and> four_digit_year (date_of now - days) \<and> four_digit_dates db \<longrightarrow>
      (\<exists>H. get_user_history now name days db = Inr H
         \<and> sorted_wrt (\<lambda>a b. b < a) (map fst H)
         \<and> fst ` set H = a_date ` set (rows_since uid (date_of now - days) db)
         \<and> (\<forall>(d, evs) \<in> set H.
               evs \<noteq> []
               \<and> (\<exists>rs. evs = map event_of rs
                      \<and> mset rs = mset (filter (\<lambda>r. a_date r = d)
                                           (rows_since uid (date_of now - days) db))
                      \<and> sorted_wrt (\<lambda>a b. a_punch_time b \<le> a_punch_time a) rs))))
   \<and> (get_user_id name db = Some uid \<and> 0 < uid
        \<and> (999999999 < \<bar>days\<bar> \<or> date_of now - days < min_day \<or> max_day < date_of now - days)
        \<longrightarrow> get_user_history now name days db = Inl OverflowError)
   \<and> (falsy (get_user_id name db) \<longrightarrow> get_user_history now name days db = Inr [])
   \<and> (map_of records name = Some by_date \<and> 0 \<le> days \<longrightarrow>
        map fst (get_user_history_json name days records)
          = take (nat days) (rev (sort (map fst by_date)))
        \<and> (\<forall>(d, evs) \<in> set (get_user_history_json name days records).
              map_of by_date d = Some evs \<and> (no_empty_days records \<longrightarrow> evs \<noteq> [])))
   \<and> (map_of records name = None \<longrightarrow> get_user_history_json name days records = [])"
proof (intro conjI impI)
  assume "falsy (get_user_id name db)"
  then show "get_user_history now name days db = Inr []"
    by (simp add: get_user_history_def)
next
  assume "map_of records name = None"
  then show "get_user_history_json name days records = []"
    by (simp add: get_user_history_json_def)
next
  assume "get_user_id name db = Some uid \<and> 0 < uid
        \<and> (999999999 < \<bar>days\<bar> \<or> date_of now - days < min_day \<or> max_day < date_of now - days)"
  then show "get_user_history now name days db = Inl OverflowError"
    by (intro get_user_history_overflow [where uid = uid]) simp_all
next
  assume u: "get_user_id name db = Some uid \<and> 0 < uid \<and> \<bar>days\<bar> \<le> 999999999
      \<and> four_digit_year (date_of now - days) \<and> four_digit_dates db"
  define H where "H = history_loop (order_by (\<lambda>r. (- a_date r, - a_punch_time r))
                  (rev (rows_since uid (date_of now - days) db))) []"
  have ret: "get_user_history now name days db = Inr H"
    unfolding H_def using u by (intro get_user_history_sqlite) simp_all
  note S = history_loop_sorted_rows [where rows = "rows_since uid (date_of now - days) db",
      folded H_def]
  have "\<forall>(d, evs) \<in> set H.
            evs \<noteq> []
            \<and> (\<exists>rs. evs = map event_of rs
                   \<and> mset rs = mset (filter (\<lambda>r. a_date r = d)
                                        (rows_since uid (date_of now - days) db))
                   \<and> sorted_wrt (\<lambda>a b. a_punch_time b \<le> a_punch_time a) rs)"
    using S(3) by blast
  with ret S(1,2) show "\<exists>H. get_user_history now name days db = Inr H
         \<and> sorted_wrt (\<lambda>a b. b < a) (map fst H)
         \<and> fst ` set H = a_date ` set (rows_since uid (date_of now - days) db)
         \<and> (\<forall>(d, evs) \<in> set H.
               evs \<noteq> []
               \<and> (\<exists>rs. evs = map event_of rs
                      \<and> mset rs = mset (filter (\<lambda>r. a_date r = d)
                                           (rows_since uid (date_of now - days) db))
                      \<and> sorted_wrt (\<lambda>a b. a_punch_time b \<le> a_punch_time a) rs))"
    by blast
next
  assume j: "map_of records name = Some by_date \<and> 0 \<le> days"
  note J = get_user_history_json_known [where records = records and name = name
      and by_date = by_date and days = days]
  from j show "map fst (get_user_history_json name days records)
          = take (nat days) (rev (sort (map fst by_date)))"
    by (intro J(1)) simp_all
  show "\<forall>(d, evs) \<in> set (get_user_history_json name days records).
              map_of by_date d = Some evs \<and> (no_empty_days records \<longrightarrow> evs \<noteq> [])"
  proof (intro ballI, clarify, intro conjI impI)
    fix d evs
    assume mem: "(d, evs) \<in> set (get_user_history_json name days records)"
    from j mem show m: "map_of by_date d = Some evs"
      by (intro J(2)) simp_all
    assume inv: "no_empty_days records"
    from j have "(name, by_date) \<in> set records" by (auto dest: map_of_SomeD)
    moreover from m have "(d, evs) \<in> set by_date" by (rule map_of_SomeD)
    ultimately show "evs \<noteq> []"
      using inv by (auto simp: no_empty_days_def list_all_iff)
  qed
qed

lemma hms_fixture:
  "strftime_HMS 1728032400 = ''09:00:00''" "strftime_HMS 1728061200 = ''17:00:00''"
  by (simp_all add: strftime_HMS_def two_digits_def digit_char_simps)

lemma strftime_Ymd_20000: "strftime_Ymd 20000 = ''2024-10-04''"
proof -
  have "ord2ymd 739163 = (2024, 10, 4)"
    by (simp add: ord2ymd_def Let_def days_before_month_def days_in_month_def)
  moreover have "str_nat 2024 = ''2024''"
    by code_simp
  ultimately show ?thesis
    by (simp add: strftime_Ymd_def two_digits_def digit_char_simps)
qed

lemma strftime_Ymd_929: "strftime_Ymd (- 380000) = ''929-08-06''"
proof -
  have "ord2ymd 339163 = (929, 8, 6)"
    by (simp add: ord2ymd_def Let_def days_before_month_def days_in_month_def)
  moreover have "str_nat 929 = ''929''"
    by code_simp
  ultimately show ?thesis
    by (simp add: strftime_Ymd_def two_digits_def digit_char_simps)
qed

text \<open>
  A start date before the year 1000: 400000 days before day 20000 is 929-08-06, whose
  text has no leading zero and is above the text of every stored date, so nothing is
  selected.
\<close>

lemma get_user_history_unpadded_start:
  "get_user_history t_1800 ''alice'' 400000 ledger0 = Inr []"
proof -
  have m: "minus_days t_1800 400000 = Inr (t_1800 - 400000 * 86400000000)"
    by (simp add: minus_days_def date_of_def second_of_def t_1800_def min_day_def max_day_def)
  have d: "date_of (t_1800 - 400000 * 86400000000) = - 380000"
    by (simp add: date_of_def second_of_def t_1800_def)
  have g: "\<not> date_ge 20000 (- 380000)"
    by (simp add: date_ge_def four_digit_year_def max_day_def strftime_Ymd_20000 strftime_Ymd_929
        less_eq_char_def)
  show ?thesis
    unfolding get_user_history_def get_user_id_alice Let_def m sum.case d
    by (simp add: falsy_def order_by_def ledger0_def g)
qed

text \<open>
  C7 as stated fails on the SQLite ledger: alice punched in and then out on day 20000; her
  history lists that day's events newest first, not in insertion order.  Thirty days
  later her seven-day history is empty, although day 20000 is the most recent date on
  which she has an event.  And for \<open>days = 1000000\<close> no dict is returned at all.
\<close>

theorem get_user_history_counterexample:
  "map a_punch_type (filter (\<lambda>r. a_user_id r = 1) (tbl_attendance ledger0)) = [''in'', ''out'']
   \<and> get_user_id ''alice'' ledger0 = Some 1
   \<and> get_user_history t_1800 ''alice'' 7 ledger0 =
        Inr [(20000, [\<lparr>ev_type = ''out'', ev_time = ''17:00:00''\<rparr>,
                      \<lparr>ev_type = ''in'', ev_time = ''09:00:00''\<rparr>])]
   \<and> get_user_history (t_1800 + 30 * 86400000000) ''alice'' 7 ledger0 = Inr []
   \<and> get_user_history t_1800 ''alice'' 1000000 ledger0 = Inl OverflowError"
proof -
  have m: "minus_days t_1800 7 = Inr (t_1800 - 7 * 86400000000)"
    "minus_days (t_1800 + 30 * 86400000000) 7 = Inr (t_1800 + 30 * 86400000000 - 7 * 86400000000)"
    "minus_days t_1800 1000000 = Inl OverflowError"
    by (simp_all add: minus_days_def date_of_def second_of_def t_1800_def min_day_def max_day_def)
  have d: "date_of (t_1800 - 7 * 86400000000) = 19993"
    "date_of (t_1800 + 30 * 86400000000 - 7 * 86400000000) = 20023"
    by (simp_all add: date_of_def second_of_def t_1800_def)
  have g: "date_ge 20000 19993" "\<not> date_ge 20000 20023"
    by (simp_all add: date_ge_def four_digit_year_def max_day_def)
  have a: "map a_punch_type (filter (\<lambda>r. a_user_id r = 1) (tbl_attendance ledger0)) = [''in'', ''out'']"
    by (simp add: ledger0_def)
  have b: "get_user_history t_1800 ''alice'' 7 ledger0 =
        Inr [(20000, [\<lparr>ev_type = ''out'', ev_time = ''17:00:00''\<rparr>,
                      \<lparr>ev_type = ''in'', ev_time = ''09:00:00''\<rparr>])]"
    unfolding get_user_history_def get_user_id_alice Let_def m sum.case d
    by (simp add: falsy_def order_by_def ledger0_def event_of_def hms_fixture less_eq_prod_def g)
  have c: "get_user_history (t_1800 + 30 * 86400000000) ''alice'' 7 ledger0 = Inr []"
    unfolding get_user_history_def get_user_id_alice Let_def m sum.case d
    by (simp add: falsy_def order_by_def ledger0_def g)
  have e: "get_user_history t_1800 ''alice'' 1000000 ledger0 = Inl OverflowError"
    unfolding get_user_history_def get_user_id_alice Let_def m sum.case
    by (simp add: falsy_def)
  from a b c e get_user_id_alice show ?thesis by simp
qed

theorem get_user_history_contents_witness:
  "get_user_id ''alice'' ledger0 = Some 1
   \<and> four_digit_year (date_of t_1800 - 7)
   \<and> four_digit_dates ledger0
   \<and> map fst (projr (get_user_history t_1800 ''alice'' 7 ledger0)) = [20000]
   \<and> date_of t_1800 - 1000000 < min_day
   \<and> get_user_history t_1800 ''alice'' 1000000 ledger0 = Inl OverflowError
   \<and> falsy (get_user_id ''carol'' ledger0)
   \<and> get_user_history t_1800 ''carol'' 7 ledger0 = Inr []
   \<and> map_of sheet0 ''alice'' = Some (dict_get sheet0 ''alice'' [])
   \<and> no_empty_days sheet0
   \<and> map fst (get_user_history_json ''alice'' 1 sheet0) = [20001]
   \<and> map_of sheet0 ''carol'' = None
   \<and> get_user_history_json ''carol'' 1 sheet0 = []"
proof -
  let ?bd = "dict_get sheet0 ''alice'' []"
  note T = get_user_history_contents [where name = "''alice''" and db = ledger0 and uid = 1
      and now = t_1800 and days = 7 and records = sheet0 and by_date = ?bd]
  note O = get_user_history_contents [where name = "''alice''" and db = ledger0 and uid = 1
      and now = t_1800 and days = 1000000 and records = sheet0 and by_date = ?bd]
  note U = get_user_history_contents [where name = "''carol''" and db = ledger0 and uid = 1
      and now = t_1800 and days = 1 and records = sheet0 and by_date = ?bd]
  note V = get_user_history_contents [where name = "''alice''" and db = ledger0 and uid = 1
      and now = t_1800 and days = 1 and records = sheet0 and by_date = ?bd]
  note W = get_user_history_contents [where name = "''carol''" and db = ledger0 and uid = 1
      and now = t_1800 and days = 7 and records = sheet0 and by_date = ?bd]
  have d: "date_of t_1800 = 20000"
    by (simp add: date_of_def second_of_def t_1800_def)
  have f: "four_digit_year (date_of t_1800 - 7)"
    by (simp add: d four_digit_year_def max_day_def)
  have fd: "four_digit_dates ledger0"
    by (simp add: four_digit_dates_def four_digit_year_def max_day_def ledger0_def)
  have low: "date_of t_1800 - 1000000 < min_day"
    by (simp add: d min_day_def)
  have c: "falsy (get_user_id ''carol'' ledger0)"
    by (simp add: falsy_def get_user_id_def fetchone_def ledger0_def)
  have m: "map_of sheet0 ''alice'' = Some ?bd"
    by (simp add: sheet0_def dict_get_def)
  have n: "map_of sheet0 ''carol'' = None"
    by (simp add: sheet0_def)
  have inv: "no_empty_days sheet0"
    by (simp add: no_empty_days_def sheet0_def)
  have "\<exists>H. get_user_history t_1800 ''alice'' 7 ledger0 = Inr H
         \<and> sorted_wrt (\<lambda>a b. b < a) (map fst H)
         \<and> fst ` set H = a_date ` set (rows_since 1 (date_of t_1800 - 7) ledger0)"
    using T get_user_id_alice f fd by auto
  then obtain H where ret: "get_user_history t_1800 ''alice'' 7 ledger0 = Inr H"
    and desc: "sorted_wrt (\<lambda>a b. b < a) (map fst H)"
    and "fst ` set H = a_date ` set (rows_since 1 (date_of t_1800 - 7) ledger0)"
    by blast
  then have keys: "fst ` set H = {20000}"
    by (simp add: d rows_since_def ledger0_def)
  have "map fst H = [20000]"
  proof (cases "map fst H")
    case Nil
    with keys show ?thesis by simp
  next
    case (Cons x xs)
    have "set (x # xs) = {20000}" using keys Cons by (metis list.set_map)
    moreover have "sorted_wrt (\<lambda>a b. b < a) (x # xs)" using desc Cons by simp
    ultimately have "x = 20000 \<and> xs = []"
      by (cases xs) auto
    with Cons show ?thesis by simp
  qed
  then have 1: "map fst (projr (get_user_history t_1800 ''alice'' 7 ledger0)) = [20000]"
    by (simp add: ret)
  have 5: "get_user_history t_1800 ''alice'' 1000000 ledger0 = Inl OverflowError"
    using O get_user_id_alice low by simp
  have 2: "get_user_history t_1800 ''carol'' 7 ledger0 = Inr []"
    using W c by blast
  have 3: "map fst (get_user_history_json ''alice'' 1 sheet0) = [20001]"
    using V m by (simp add: sheet0_def dict_get_def)
  have 4: "get_user_history_json ''carol'' 1 sheet0 = []"
    using U n by blast
  from get_user_id_alice f fd 1 low 5 c 2 m inv 3 n 4 show ?thesis by blast
qed

text \<open>
  The JSON tracker has no time window: ten minutes after punching in, a second punch of
  the same type on the same date is still rejected.
\<close>

lemma punch_json_no_window:
  "punch_json (t_1800 + 600000000) ''alice'' ''in'' (fst (punch_json t_1800 ''alice'' ''in'' []))
     = ([(''alice'', [(20000, [\<lparr>ev_type = ''in'', ev_time = ''18:00:00''\<rparr>])])],
        (False, ''Already punched in at 18:00:00''))"
proof -
  have s: "second_of t_1800 = 1728064800" "date_of t_1800 = 20000"
    "date_of (t_1800 + 600000000) = 20000"
    by (simp_all add: second_of_def date_of_def t_1800_def)
  have f: "fst (punch_json t_1800 ''alice'' ''in'' []) =
      [(''alice'', [(20000, [\<lparr>ev_type = ''in'', ev_time = ''18:00:00''\<rparr>])])]"
    by (simp add: punch_json_def s hms_1800 dict_get_def Let_def)
  show ?thesis
    unfolding f by (simp add: punch_json_def s dict_get_def Let_def)
qed

lemma punch_json_1800:
  "snd (punch_json t_1800 ''alice'' ''in'' []) = (True, ''Punched in successfully at 18:00:00'')"
proof -
  have s: "second_of t_1800 = 1728064800" "date_of t_1800 = 20000"
    by (simp_all add: second_of_def date_of_def t_1800_def)
  show ?thesis
    by (simp add: punch_json_def s hms_1800 dict_get_def Let_def)
qed

section \<open>Repeated punches of one type\<close>

text \<open>
  C1 (what the code does).  With the SQLite ledger, alice punches in at 23:58:00 and
  again, three minutes later, at 00:01:00 of the next day: the look-up is by the current
  date, so the second punch finds no earlier event and both are stored.  With the JSON
  tracker, alice punches in at 18:00:00 and again ten minutes later on the same day: the
  last event of the day has the same type, no time is looked at, the second punch is
  rejected and one event is stored.
\<close>

theorem punch_repeat_failures:
  "(t_2358 + 180000000) - t_2358 < 300 * 1000000
   \<and> snd (punch t_2358 ''alice'' ''in'' empty_db) =
        Inr (True, ''Punched in successfully at 23:58:00'')
   \<and> snd (punch (t_2358 + 180000000) ''alice'' ''in''
             (fst (punch t_2358 ''alice'' ''in'' empty_db))) =
        Inr (True, ''Punched in successfully at 00:01:00'')
   \<and> length (tbl_attendance (fst (punch (t_2358 + 180000000) ''alice'' ''in''
             (fst (punch t_2358 ''alice'' ''in'' empty_db))))) = 2
   \<and> 300 * 1000000 < (t_1800 + 600000000) - t_1800
   \<and> date_of (t_1800 + 600000000) = date_of t_1800
   \<and> snd (punch_json t_1800 ''alice'' ''in'' []) =
        (True, ''Punched in successfully at 18:00:00'')
   \<and> punch_json (t_1800 + 600000000) ''alice'' ''in''
        (fst (punch_json t_1800 ''alice'' ''in'' [])) =
        ([(''alice'', [(20000, [\<lparr>ev_type = ''in'', ev_time = ''18:00:00''\<rparr>])])],
         (False, ''Already punched in at 18:00:00''))"
proof -
  have d: "date_of (t_1800 + 600000000) = date_of t_1800"
    by (simp add: date_of_def second_of_def t_1800_def)
  have m: "snd (punch (t_2358 + 180000000) ''alice'' ''in''
             (fst (punch t_2358 ''alice'' ''in'' empty_db))) =
        Inr (True, ''Punched in successfully at 00:01:00'')
     \<and> length (tbl_attendance (fst (punch (t_2358 + 180000000) ''alice'' ''in''
             (fst (punch t_2358 ''alice'' ''in'' empty_db))))) = 2"
    by (simp only: punch_0001) simp
  have f: "snd (punch t_2358 ''alice'' ''in'' empty_db) =
        Inr (True, ''Punched in successfully at 23:58:00'')"
    by (simp add: punch_2358)
  from d m f punch_json_1800 punch_json_no_window show ?thesis
    by simp
qed

end
